theory Spec2Isabelle
  imports Complex_Main "HOL-Library.Sublist"
begin

section \<open>The page: document, history, timers, effects\<close>

text \<open>
  The script works on a browser page. The document is kept as the list of its elements in
  document order; a node is its position in that list. Of an element the script reads the
  identifier, the class list and the attribute \<open>data-img\<close> (empty when absent), and it
  writes the class list; the selectors modelled here are class selectors and identifier
  lookups, so the tree shape is not needed, and an event is dispatched at the node its
  listener was added to. The markup itself is not part of the script: it is a parameter
  of every definition (the field \<open>doc\<close> of the page).
\<close>

record element =
  elId :: string
  classList :: "string list"
  dataImg :: string

type_synonym node = nat

datatype task = InitRefinedInteractions | InitProjectsSlider | ShowViewTask string

datatype effect =
    ClassRemove node string
  | ClassAdd node string
  | ReplaceState string
  | ScrollTo int int
  | GsapFrom node
  | GsapTo node
  | Gsap string
  | Invoke string
  | ScrollTriggerRefresh
  | SetStyle node string string
  | BodyClassAdd string
  | BodyClassRemove string
  | SetInterval nat
  | PreventDefault
  | SendForm node
  | FormReset node
  | NativeSubmit

text \<open>The three values the global binding \<open>showView\<close> takes while the script runs:
  the declared function, and the two closures assigned to it afterwards.\<close>

datatype showViewFn = Original | Wrapper1 | Wrapper2

datatype target = Window | Node node

datatype payload = NoPayload | ClientX real

text \<open>The function values the script registers as event listeners. A constructor carries
  the constants its closure captured; the slider listeners carry the number of the
  \<open>initProjectsSlider\<close> call that created them.\<close>

datatype handler =
    OnDOMContentLoaded
  | OnPreloaderLoad
  | OnHeroMouseMove
  | OnHoverEnter node
  | OnHoverLeave node
  | OnHoverMove node
  | OnScroll
  | OnPreviewEnter node node
  | OnPreviewLeave node
  | OnMenuTriggerClick
  | OnContactSubmit node
  | OnLoad
  | OnNextClick nat
  | OnPrevClick nat
  | OnTouchStart nat
  | OnTouchEnd nat
  | OnResize nat

text \<open>The variables of one call of \<open>initProjectsSlider\<close>: the constants its
  listeners share, and the two variables of the drag gesture.\<close>

record sliderClosure =
  track :: node
  slides :: "node list"
  newPrevBtn :: node
  newNextBtn :: node
  startX :: real
  isDragging :: bool

datatype error = TypeError string

record page =
  doc :: "element list"
  hist :: "(string \<times> string) list"
  histIdx :: nat
  timers :: "(task \<times> nat) list"
  effects :: "effect list"
  listeners :: "(target \<times> string \<times> handler) list"
  readyComplete :: bool
  defaultPrevented :: bool
  pendingSends :: "node list"
  showViewRef :: showViewFn
  menuTrigger :: "node option"
  navOverlay :: "node option"
  isMenuOpen :: bool
  currentProjectIndex :: int
  sliderClosures :: "sliderClosure list"

text \<open>A call either returns or throws; the page as it is at that moment is kept in both
  cases, since what a function wrote before it threw stays written.\<close>

datatype outcome = Completed page | Threw error page

fun page_of :: "outcome \<Rightarrow> page" where
  "page_of (Completed p) = p"
| "page_of (Threw e p) = p"

fun andThen :: "outcome \<Rightarrow> (page \<Rightarrow> outcome) \<Rightarrow> outcome" where
  "andThen (Completed p) f = f p"
| "andThen (Threw e p) f = Threw e p"

subsection \<open>Document primitives\<close>

fun index_where :: "('a \<Rightarrow> bool) \<Rightarrow> 'a list \<Rightarrow> nat option" where
  "index_where P [] = None"
| "index_where P (x # xs) = (if P x then Some 0 else map_option Suc (index_where P xs))"

text \<open>\<open>document.getElementById\<close>: the first element in document order carrying the
  identifier, \<open>null\<close> (here \<open>None\<close>) when there is none. The empty string names no element.\<close>

definition getElementById :: "element list \<Rightarrow> string \<Rightarrow> node option" where
  "getElementById d s = (if s = [] then None else index_where (\<lambda>x. x = s) (map elId d))"

definition hasClass :: "string \<Rightarrow> element \<Rightarrow> bool" where
  "hasClass c e = (c \<in> set (classList e))"

text \<open>\<open>document.querySelectorAll('.c')\<close>: a static list of the nodes of class \<open>c\<close>.\<close>

definition querySelectorAll_class :: "element list \<Rightarrow> string \<Rightarrow> node list" where
  "querySelectorAll_class d c = filter (\<lambda>i. hasClass c (d ! i)) [0..<length d]"

definition querySelector_class :: "element list \<Rightarrow> string \<Rightarrow> node option" where
  "querySelector_class d c = (case querySelectorAll_class d c of [] \<Rightarrow> None | i # _ \<Rightarrow> Some i)"

text \<open>A selector list \<open>.a, .b, ...\<close>: the nodes carrying at least one of the classes.\<close>

definition querySelectorAll_classes :: "element list \<Rightarrow> string list \<Rightarrow> node list" where
  "querySelectorAll_classes d cs = filter (\<lambda>i. \<exists>c\<in>set cs. hasClass c (d ! i)) [0..<length d]"

definition token_add :: "string \<Rightarrow> string list \<Rightarrow> string list" where
  "token_add c cl = (if c \<in> set cl then cl else cl @ [c])"

definition token_remove :: "string \<Rightarrow> string list \<Rightarrow> string list" where
  "token_remove c cl = filter (\<lambda>x. x \<noteq> c) cl"

definition classList_remove :: "node \<Rightarrow> string \<Rightarrow> page \<Rightarrow> page" where
  "classList_remove i c p =
     p\<lparr>doc := (doc p)[i := (doc p ! i)\<lparr>classList := token_remove c (classList (doc p ! i))\<rparr>],
       effects := effects p @ [ClassRemove i c]\<rparr>"

definition classList_add :: "node \<Rightarrow> string \<Rightarrow> page \<Rightarrow> page" where
  "classList_add i c p =
     p\<lparr>doc := (doc p)[i := (doc p ! i)\<lparr>classList := token_add c (classList (doc p ! i))\<rparr>],
       effects := effects p @ [ClassAdd i c]\<rparr>"

text \<open>\<open>document.querySelectorAll('.c').forEach(x => x.classList.remove('active'))\<close>\<close>

definition removeActiveFromAll :: "string \<Rightarrow> page \<Rightarrow> page" where
  "removeActiveFromAll c p =
     fold (\<lambda>i. classList_remove i ''active'') (querySelectorAll_class (doc p) c) p"

subsection \<open>Browser collaborators\<close>

text \<open>
  The session history is a list of entries with a current position; an entry is a URL,
  kept as the address of the document and the hash part (empty, or \<open>#\<close> followed by
  the fragment). Strings are sequences of bytes (UTF-8).

  \<open>history.replaceState(null, null, url)\<close> parses \<open>url\<close> against the address of the
  document and overwrites the current entry; it neither adds an entry nor moves the
  position. The URL parser first removes leading and trailing C0 controls and spaces
  from its input, then every tab and newline. The script only passes inputs that start
  with \<open>#\<close>: they keep the address of the document, and what follows the \<open>#\<close> becomes
  the fragment, each byte of the fragment percent-encode set (C0 controls, space,
  \<open>"\<close>, \<open><\<close>, \<open>>\<close>, the backquote, and every byte above \<open>~\<close>) written as \<open>%\<close> and two
  hexadecimal digits. An input that does not start with \<open>#\<close> would name another
  address, which the model does not follow; its entry gets no fragment.
\<close>

definition c0_control_or_space :: "char \<Rightarrow> bool" where
  "c0_control_or_space c = ((of_char c :: nat) \<le> 0x20)"

definition ascii_tab_or_newline :: "char \<Rightarrow> bool" where
  "ascii_tab_or_newline c = ((of_char c :: nat) = 0x09 \<or> (of_char c :: nat) = 0x0A \<or> (of_char c :: nat) = 0x0D)"

definition in_fragment_percent_encode_set :: "char \<Rightarrow> bool" where
  "in_fragment_percent_encode_set c =
     ((of_char c :: nat) \<le> 0x1F \<or> (of_char c :: nat) > 0x7E \<or>
      c = CHR '' '' \<or> c = CHR 0x22 \<or> c = CHR ''<'' \<or> c = CHR ''>'' \<or> c = CHR 0x60)"

definition hex_digit :: "nat \<Rightarrow> char" where
  "hex_digit n = ''0123456789ABCDEF'' ! n"

definition percent_encode_byte :: "char \<Rightarrow> string" where
  "percent_encode_byte c =
     [CHR ''%'', hex_digit ((of_char c :: nat) div 16), hex_digit ((of_char c :: nat) mod 16)]"

definition percent_encode_fragment :: "string \<Rightarrow> string" where
  "percent_encode_fragment s =
     concat (map (\<lambda>c. if in_fragment_percent_encode_set c then percent_encode_byte c else [c]) s)"

definition url_input_strip :: "string \<Rightarrow> string" where
  "url_input_strip s =
     filter (\<lambda>c. \<not> ascii_tab_or_newline c)
       (rev (dropWhile c0_control_or_space (rev (dropWhile c0_control_or_space s))))"

definition parse_hash :: "string \<Rightarrow> string" where
  "parse_hash url =
     (case url_input_strip url of
        [] \<Rightarrow> []
      | c # frag \<Rightarrow> if c = CHR ''#'' then CHR ''#'' # percent_encode_fragment frag else [])"

definition replaceState :: "string \<Rightarrow> page \<Rightarrow> page" where
  "replaceState url p =
     p\<lparr>hist := (hist p)[histIdx p := (fst (hist p ! histIdx p), parse_hash url)],
       effects := effects p @ [ReplaceState url]\<rparr>"

text \<open>\<open>window.location.hash\<close>: empty when the URL has no fragment or an empty one.\<close>

definition location_hash :: "page \<Rightarrow> string" where
  "location_hash p = (let u = snd (hist p ! histIdx p) in if u = ''#'' then [] else u)"

definition history_back :: "page \<Rightarrow> page" where
  "history_back p = (if 0 < histIdx p then p\<lparr>histIdx := histIdx p - 1\<rparr> else p)"

text \<open>\<open>addEventListener\<close> with a fresh function value always adds a listener.\<close>

definition addEventListener :: "target \<Rightarrow> string \<Rightarrow> handler \<Rightarrow> page \<Rightarrow> page" where
  "addEventListener t ty h p = p\<lparr>listeners := listeners p @ [(t, ty, h)]\<rparr>"

definition emit :: "effect \<Rightarrow> page \<Rightarrow> page" where
  "emit e p = p\<lparr>effects := effects p @ [e]\<rparr>"

definition setTimeout :: "task \<Rightarrow> nat \<Rightarrow> page \<Rightarrow> page" where
  "setTimeout t ms p = p\<lparr>timers := timers p @ [(t, ms)]\<rparr>"

text \<open>\<open>animateBadge\<close> only issues requests to the animation engine; its invocation is
  recorded as one effect.\<close>

definition animateBadge :: "page \<Rightarrow> page" where
  "animateBadge p = emit (Invoke ''animateBadge'') p"

section \<open>View switching\<close>

text \<open>The declared function \<open>showView\<close> (the first value of the binding).\<close>

definition showView_orig :: "string \<Rightarrow> page \<Rightarrow> page" where
  "showView_orig viewId p =
    (let p1 = removeActiveFromAll ''view-section'' p;
         p2 = removeActiveFromAll ''nav-item'' p1;
         targetView = getElementById (doc p2) (''view-'' @ viewId);
         targetLink = getElementById (doc p2) (''link-'' @ viewId)
     in case targetView of
          None \<Rightarrow> p2
        | Some tv \<Rightarrow>
           (let p3 = classList_add tv ''active'' p2;
                p4 = (case targetLink of None \<Rightarrow> p3 | Some lnk \<Rightarrow> classList_add lnk ''active'' p3);
                p5 = replaceState (CHR ''#'' # viewId) p4;
                p6 = emit (ScrollTo 0 0) p5;
                p7 = emit (GsapFrom tv) p6;
                p8 = (if viewId = ''about'' then animateBadge p7 else p7)
            in emit ScrollTriggerRefresh p8))"

text \<open>The first closure assigned to \<open>showView\<close>: it calls the declared function and
  schedules the rebinding of the hover handlers.\<close>

definition showView_w1 :: "string \<Rightarrow> page \<Rightarrow> page" where
  "showView_w1 viewId p = setTimeout InitRefinedInteractions 100 (showView_orig viewId p)"

text \<open>The second closure: it calls the first and, for the projects view, schedules the
  slider initialisation.\<close>

definition showView_w2 :: "string \<Rightarrow> page \<Rightarrow> page" where
  "showView_w2 viewId p =
     (let p1 = showView_w1 viewId p
      in if viewId = ''projects'' then setTimeout InitProjectsSlider 100 p1 else p1)"

text \<open>A call through the global binding.\<close>

definition showView :: "string \<Rightarrow> page \<Rightarrow> page" where
  "showView viewId p =
     (case showViewRef p of
        Original \<Rightarrow> showView_orig viewId p
      | Wrapper1 \<Rightarrow> showView_w1 viewId p
      | Wrapper2 \<Rightarrow> showView_w2 viewId p)"

text \<open>The views marked active: the nodes of class \<open>view-section\<close> that carry \<open>active\<close>.\<close>

definition activeViews :: "element list \<Rightarrow> node list" where
  "activeViews d = filter (\<lambda>i. hasClass ''view-section'' (d ! i) \<and> hasClass ''active'' (d ! i)) [0..<length d]"

definition activeNavItems :: "element list \<Rightarrow> node list" where
  "activeNavItems d = filter (\<lambda>i. hasClass ''nav-item'' (d ! i) \<and> hasClass ''active'' (d ! i)) [0..<length d]"

text \<open>The listener of \<open>DOMContentLoaded\<close>. The string method \<open>replace('#', '')\<close> removes the
  first \<open>#\<close> only.\<close>

definition onDOMContentLoaded :: "page \<Rightarrow> page" where
  "onDOMContentLoaded p =
     (let p1 = emit (Gsap ''nav'') p;
          currentHash = remove1 CHR ''#'' (location_hash p1)
      in if currentHash \<noteq> [] \<and> getElementById (doc p1) (''view-'' @ currentHash) \<noteq> None
         then showView currentHash p1
         else showView ''home'' p1)"

section \<open>Preloader and hover interactions\<close>

text \<open>\<open>initPreloader\<close> up to the start of its counting interval; what the interval does
  later (text and opacity of the loader, the closing animation) is not part of the model.\<close>

definition initPreloader :: "page \<Rightarrow> page" where
  "initPreloader p =
     (let percentEl = querySelector_class (doc p) ''loader-progress'';
          preloader = getElementById (doc p) ''preloader''
      in if percentEl = None \<or> preloader = None then p
         else (let p1 = emit (BodyClassAdd ''loading'') p;
                   p2 = (if readyComplete p1 then p1
                         else addEventListener Window ''load'' OnPreloaderLoad p1)
               in emit (SetInterval 20) p2))"

definition initRefinedInteractions :: "page \<Rightarrow> page" where
  "initRefinedInteractions p =
     fold (\<lambda>el q.
             addEventListener (Node el) ''mousemove'' (OnHoverMove el)
               (addEventListener (Node el) ''mouseleave'' (OnHoverLeave el)
                 (addEventListener (Node el) ''mouseenter'' (OnHoverEnter el) q)))
          (querySelectorAll_classes (doc p)
             [''hover-target'', ''nav-item'', ''btn'', ''project-card'', ''photo-item'', ''char''])
          p"

section \<open>Mobile menu\<close>

text \<open>An argument is truthy when it is given and not the empty string.\<close>

definition toggleMobileMenu :: "string option \<Rightarrow> page \<Rightarrow> outcome" where
  "toggleMobileMenu targetView p =
     (if \<not> isMenuOpen p then
        (let p1 = emit (Gsap ''menuTl.play'') p
         in case menuTrigger p1 of
              None \<Rightarrow> Threw (TypeError ''menuTrigger is null'') p1
            | Some mt \<Rightarrow>
               (let p2 = classList_add mt ''active'' p1
                in case navOverlay p2 of
                     None \<Rightarrow> Threw (TypeError ''navOverlay is null'') p2
                   | Some ov \<Rightarrow>
                      (let p3 = classList_add ov ''active'' p2
                       in Completed (p3\<lparr>isMenuOpen := \<not> isMenuOpen p3\<rparr>))))
      else
        (let p1 = emit (Gsap ''menuTl.reverse'') p
         in case menuTrigger p1 of
              None \<Rightarrow> Threw (TypeError ''menuTrigger is null'') p1
            | Some mt \<Rightarrow>
               (let p2 = classList_remove mt ''active'' p1
                in case navOverlay p2 of
                     None \<Rightarrow> Threw (TypeError ''navOverlay is null'') p2
                   | Some ov \<Rightarrow>
                      (let p3 = classList_remove ov ''active'' p2;
                           p4 = (case targetView of
                                   None \<Rightarrow> p3
                                 | Some tv \<Rightarrow> if tv = [] then p3
                                              else setTimeout (ShowViewTask tv) 500 p3)
                       in Completed (p4\<lparr>isMenuOpen := \<not> isMenuOpen p4\<rparr>)))))"

section \<open>Contact form\<close>

text \<open>The submit listener. \<open>emailjs.sendForm\<close> returns a promise; the form it was called
  with is kept until the promise is settled.\<close>

definition onContactSubmit :: "node \<Rightarrow> page \<Rightarrow> page" where
  "onContactSubmit form p =
     (let p1 = (emit PreventDefault p)\<lparr>defaultPrevented := True\<rparr>;
          p2 = emit (SendForm form) p1
      in p2\<lparr>pendingSends := pendingSends p2 @ [form]\<rparr>)"

definition showMessageModal :: "page \<Rightarrow> outcome" where
  "showMessageModal p =
     (case getElementById (doc p) ''message-modal'' of
        None \<Rightarrow> Threw (TypeError ''modal is null'') p
      | Some m \<Rightarrow> Completed (classList_add m ''active'' p))"

definition closeMessageModal :: "page \<Rightarrow> outcome" where
  "closeMessageModal p =
     (case getElementById (doc p) ''message-modal'' of
        None \<Rightarrow> Threw (TypeError ''modal is null'') p
      | Some m \<Rightarrow> Completed (classList_remove m ''active'' p))"

definition showErrorModal :: "page \<Rightarrow> outcome" where
  "showErrorModal p =
     (case getElementById (doc p) ''error-modal'' of
        None \<Rightarrow> Threw (TypeError ''modal is null'') p
      | Some m \<Rightarrow> Completed (classList_add m ''active'' p))"

definition closeErrorModal :: "page \<Rightarrow> outcome" where
  "closeErrorModal p =
     (case getElementById (doc p) ''error-modal'' of
        None \<Rightarrow> Threw (TypeError ''modal is null'') p
      | Some m \<Rightarrow> Completed (classList_remove m ''active'' p))"

text \<open>The two callbacks given to \<open>then\<close>: the first runs when the promise is fulfilled,
  the second when it is rejected.\<close>

definition sendFormFulfilled :: "node \<Rightarrow> page \<Rightarrow> outcome" where
  "sendFormFulfilled form p = andThen (showMessageModal p) (\<lambda>q. Completed (emit (FormReset form) q))"

definition sendFormRejected :: "page \<Rightarrow> outcome" where
  "sendFormRejected p = showErrorModal p"

section \<open>Projects slider\<close>

text \<open>\<open>updateSlider\<close>, for the constants of the call of \<open>initProjectsSlider\<close> that made it.\<close>

definition updateSlider :: "sliderClosure \<Rightarrow> page \<Rightarrow> page" where
  "updateSlider c p =
     (let p1 = emit (GsapTo (track c)) p;
          p2 = fold (\<lambda>(index, slide) q.
                       if int index = currentProjectIndex q
                       then classList_add slide ''active'' q
                       else classList_remove slide ''active'' q)
                    (enumerate 0 (slides c)) p1;
          p3 = emit (SetStyle (newPrevBtn c) ''opacity''
                       (if currentProjectIndex p2 = 0 then ''0.2'' else ''1'')) p2;
          p4 = emit (SetStyle (newPrevBtn c) ''pointerEvents''
                       (if currentProjectIndex p3 = 0 then ''none'' else ''auto'')) p3;
          p5 = emit (SetStyle (newNextBtn c) ''opacity''
                       (if currentProjectIndex p4 = int (length (slides c)) - 1 then ''0.2'' else ''1'')) p4
      in emit (SetStyle (newNextBtn c) ''pointerEvents''
                 (if currentProjectIndex p5 = int (length (slides c)) - 1 then ''none'' else ''auto'')) p5)"

text \<open>Replacing a node by its deep clone keeps its place, identifier and classes and
  leaves behind the listeners that were added to it.\<close>

definition replaceWithClone :: "node \<Rightarrow> page \<Rightarrow> page" where
  "replaceWithClone n p = p\<lparr>listeners := filter (\<lambda>(t, ty, h). t \<noteq> Node n) (listeners p)\<rparr>"

definition initProjectsSlider :: "page \<Rightarrow> outcome" where
  "initProjectsSlider p =
     (let trackEl = getElementById (doc p) ''projects-track'';
          slideEls = querySelectorAll_class (doc p) ''project-slide-item'';
          prevBtn = getElementById (doc p) ''projects-prev'';
          nextBtn = getElementById (doc p) ''projects-next''
      in case trackEl of
           None \<Rightarrow> Completed p
         | Some tr \<Rightarrow>
            if slideEls = [] then Completed p
            else (case prevBtn of
                    None \<Rightarrow> Threw (TypeError ''prevBtn is null'') p
                  | Some pb \<Rightarrow>
                     (case nextBtn of
                        None \<Rightarrow> Threw (TypeError ''nextBtn is null'') p
                      | Some nb \<Rightarrow>
                         (let p1 = replaceWithClone nb (replaceWithClone pb p);
                              k = length (sliderClosures p1);
                              c = \<lparr>track = tr, slides = slideEls, newPrevBtn = pb, newNextBtn = nb,
                                   startX = 0, isDragging = False\<rparr>;
                              p2 = p1\<lparr>sliderClosures := sliderClosures p1 @ [c]\<rparr>;
                              p3 = addEventListener (Node nb) ''click'' (OnNextClick k) p2;
                              p4 = addEventListener (Node pb) ''click'' (OnPrevClick k) p3;
                              p5 = addEventListener (Node tr) ''touchstart'' (OnTouchStart k) p4;
                              p6 = addEventListener (Node tr) ''touchend'' (OnTouchEnd k) p5;
                              p7 = updateSlider c p6
                          in Completed (addEventListener Window ''resize'' (OnResize k) p7)))))"

definition onNextClick :: "nat \<Rightarrow> page \<Rightarrow> page" where
  "onNextClick k p =
     (if k < length (sliderClosures p) then
        (let c = sliderClosures p ! k
         in if currentProjectIndex p < int (length (slides c)) - 1
            then updateSlider c (p\<lparr>currentProjectIndex := currentProjectIndex p + 1\<rparr>)
            else p)
      else p)"

definition onPrevClick :: "nat \<Rightarrow> page \<Rightarrow> page" where
  "onPrevClick k p =
     (if k < length (sliderClosures p) then
        (let c = sliderClosures p ! k
         in if currentProjectIndex p > 0
            then updateSlider c (p\<lparr>currentProjectIndex := currentProjectIndex p - 1\<rparr>)
            else p)
      else p)"

text \<open>The touch listeners read the horizontal position of the first touch point; an event
  without one makes them throw before they write anything.\<close>

definition onTouchStart :: "nat \<Rightarrow> payload \<Rightarrow> page \<Rightarrow> page" where
  "onTouchStart k pl p =
     (if k < length (sliderClosures p) then
        (case pl of
           NoPayload \<Rightarrow> p
         | ClientX x \<Rightarrow>
            p\<lparr>sliderClosures :=
                (sliderClosures p)[k := (sliderClosures p ! k)\<lparr>startX := x, isDragging := True\<rparr>]\<rparr>)
      else p)"

definition onTouchEnd :: "nat \<Rightarrow> payload \<Rightarrow> page \<Rightarrow> page" where
  "onTouchEnd k pl p =
     (if k < length (sliderClosures p) then
        (let c = sliderClosures p ! k
         in if \<not> isDragging c then p
            else (case pl of
                    NoPayload \<Rightarrow> p
                  | ClientX endX \<Rightarrow>
                     (let diff = startX c - endX;
                          p1 = (if \<bar>diff\<bar> > 50 then
                                  (let p' = (if diff > 0 \<and> currentProjectIndex p < int (length (slides c)) - 1
                                             then p\<lparr>currentProjectIndex := currentProjectIndex p + 1\<rparr>
                                             else if diff < 0 \<and> currentProjectIndex p > 0
                                             then p\<lparr>currentProjectIndex := currentProjectIndex p - 1\<rparr>
                                             else p)
                                   in updateSlider c p')
                                else p)
                      in p1\<lparr>sliderClosures :=
                            (sliderClosures p1)[k := (sliderClosures p1 ! k)\<lparr>isDragging := False\<rparr>]\<rparr>)))
      else p)"

definition onResize :: "nat \<Rightarrow> page \<Rightarrow> page" where
  "onResize k p = (if k < length (sliderClosures p) then updateSlider (sliderClosures p ! k) p else p)"

section \<open>Events\<close>

text \<open>What each listener does when it is called. The listeners of the hero section, of the
  hover effect and of the scroll position only write inline styles or talk to the
  animation engine; one effect stands for that.\<close>

fun handle :: "handler \<Rightarrow> payload \<Rightarrow> page \<Rightarrow> page" where
  "handle OnDOMContentLoaded pl p = onDOMContentLoaded p"
| "handle OnPreloaderLoad pl p = emit (Invoke ''isLoaded'') p"
| "handle OnHeroMouseMove pl p = emit (Gsap ''hero'') p"
| "handle (OnHoverEnter el) pl p = emit (GsapTo el) (emit (BodyClassAdd ''cursor-hover'') p)"
| "handle (OnHoverLeave el) pl p = emit (GsapTo el) (emit (BodyClassRemove ''cursor-hover'') p)"
| "handle (OnHoverMove el) pl p = emit (GsapTo el) p"
| "handle OnScroll pl p =
     (case getElementById (doc p) ''navbar'' of
        None \<Rightarrow> p
      | Some n \<Rightarrow> emit (SetStyle n ''transform'' []) p)"
| "handle (OnPreviewEnter item container) pl p =
     (if item < length (doc p) \<and> dataImg (doc p ! item) \<noteq> []
      then classList_add container ''active'' (emit (Invoke ''previewImg.src'') p)
      else p)"
| "handle (OnPreviewLeave container) pl p = classList_remove container ''active'' p"
| "handle OnMenuTriggerClick pl p = page_of (toggleMobileMenu None p)"
| "handle (OnContactSubmit form) pl p = onContactSubmit form p"
| "handle OnLoad pl p = page_of (initProjectsSlider p)"
| "handle (OnNextClick k) pl p = onNextClick k p"
| "handle (OnPrevClick k) pl p = onPrevClick k p"
| "handle (OnTouchStart k) pl p = onTouchStart k pl p"
| "handle (OnTouchEnd k) pl p = onTouchEnd k pl p"
| "handle (OnResize k) pl p = onResize k p"

text \<open>
  Dispatching an event calls the listeners registered for the target and type at that
  moment, in the order of their registration; an exception in one of them ends that
  listener only. A \<open>submit\<close> event whose default was not prevented makes the browser
  submit the form itself.
\<close>

definition listenersFor :: "target \<Rightarrow> string \<Rightarrow> page \<Rightarrow> handler list" where
  "listenersFor t ty p = map (\<lambda>(t', ty', h). h) (filter (\<lambda>(t', ty', h). t' = t \<and> ty' = ty) (listeners p))"

definition dispatchEvent :: "target \<Rightarrow> string \<Rightarrow> payload \<Rightarrow> page \<Rightarrow> page" where
  "dispatchEvent t ty pl p =
     (let p1 = fold (\<lambda>h. handle h pl) (listenersFor t ty p) (p\<lparr>defaultPrevented := False\<rparr>)
      in if ty = ''submit'' \<and> \<not> defaultPrevented p1 then emit NativeSubmit p1 else p1)"

definition run_task :: "task \<Rightarrow> page \<Rightarrow> page" where
  "run_task t p =
     (case t of
        InitRefinedInteractions \<Rightarrow> initRefinedInteractions p
      | InitProjectsSlider \<Rightarrow> page_of (initProjectsSlider p)
      | ShowViewTask v \<Rightarrow> showView v p)"

text \<open>
  What can happen to the page once the script has run: the browser dispatches an event, a
  pending timer fires, a pending promise of the mail service is settled, or an inline
  handler of the markup calls one of the global functions.
\<close>

datatype event =
    Dispatch target string payload
  | TimerFires nat
  | SendFormSettles bool
  | CallShowView string
  | CallToggleMobileMenu "string option"
  | CallCloseMessageModal
  | CallCloseErrorModal

fun step :: "event \<Rightarrow> page \<Rightarrow> page" where
  "step (Dispatch t ty pl) p = dispatchEvent t ty pl p"
| "step (TimerFires k) p =
     (if k < length (timers p)
      then run_task (fst (timers p ! k)) (p\<lparr>timers := take k (timers p) @ drop (Suc k) (timers p)\<rparr>)
      else p)"
| "step (SendFormSettles ok) p =
     (case pendingSends p of
        [] \<Rightarrow> p
      | form # rest \<Rightarrow>
         page_of ((if ok then sendFormFulfilled form else sendFormRejected) (p\<lparr>pendingSends := rest\<rparr>)))"
| "step (CallShowView v) p = showView v p"
| "step (CallToggleMobileMenu tv) p = page_of (toggleMobileMenu tv p)"
| "step CallCloseMessageModal p = page_of (closeMessageModal p)"
| "step CallCloseErrorModal p = page_of (closeErrorModal p)"

definition run :: "event list \<Rightarrow> page \<Rightarrow> page" where
  "run evs p = fold step evs p"

section \<open>The script\<close>

text \<open>
  The statements of the script in the order in which they run when it is loaded. A
  function declaration is in force from the start; an exception at the top level ends the
  script, and the statements after it never run. The block that sets up the image
  preview of the mobile menu is a definition of its own.
\<close>

definition mobileMenuPreview :: "page \<Rightarrow> page" where
  "mobileMenuPreview p =
     (let previewContainer = querySelector_class (doc p) ''nav-preview-container'';
          previewImg = getElementById (doc p) ''nav-preview-img''
      in case previewContainer of
           None \<Rightarrow> p
         | Some pc \<Rightarrow>
            if previewImg = None then p
            else fold (\<lambda>item q.
                         addEventListener (Node item) ''mouseleave'' (OnPreviewLeave pc)
                           (addEventListener (Node item) ''mouseenter'' (OnPreviewEnter item pc) q))
                      (querySelectorAll_class (doc p) ''m-nav-item'') p)"

definition script :: "page \<Rightarrow> outcome" where
  "script p0 =
     (let p1 = initPreloader (p0\<lparr>showViewRef := Original\<rparr>);
          p2 = addEventListener Window ''DOMContentLoaded'' OnDOMContentLoaded p1;
          p3 = (case getElementById (doc p2) ''hero-aesthetic'' of
                  None \<Rightarrow> p2
                | Some hero \<Rightarrow> addEventListener (Node hero) ''mousemove'' OnHeroMouseMove p2);
          p4 = p3\<lparr>showViewRef := Wrapper1\<rparr>;
          p5 = initRefinedInteractions p4;
          p6 = emit (Gsap ''heroTimeline'') p5;
          p7 = addEventListener Window ''scroll'' OnScroll p6;
          p8 = p7\<lparr>menuTrigger := getElementById (doc p7) ''mobile-menu-trigger'',
                  navOverlay := getElementById (doc p7) ''nav-overlay'',
                  isMenuOpen := False\<rparr>;
          p9 = emit (Gsap ''menuTl'') p8;
          p10 = mobileMenuPreview p9
      in case menuTrigger p10 of
           None \<Rightarrow> Threw (TypeError ''menuTrigger is null'') p10
         | Some mt \<Rightarrow>
            (let p11 = addEventListener (Node mt) ''click'' OnMenuTriggerClick p10;
                 p12 = emit (Invoke ''emailjs.init'') p11
             in case getElementById (doc p12) ''contact-form'' of
                  None \<Rightarrow> Threw (TypeError ''contact-form is null'') p12
                | Some form \<Rightarrow>
                   (let p13 = addEventListener (Node form) ''submit'' (OnContactSubmit form) p12;
                        p14 = p13\<lparr>currentProjectIndex := 0\<rparr>;
                        p15 = addEventListener Window ''load'' OnLoad p14
                    in Completed (p15\<lparr>showViewRef := Wrapper2\<rparr>))))"

section \<open>Auxiliary definitions for the statements\<close>

text \<open>An element with the class \<open>active\<close> removed or added, and what the first two
  statements of \<open>showView\<close> make of an element.\<close>

definition deactivate :: "element \<Rightarrow> element" where
  "deactivate e = e\<lparr>classList := token_remove ''active'' (classList e)\<rparr>"

definition activate :: "element \<Rightarrow> element" where
  "activate e = e\<lparr>classList := token_add ''active'' (classList e)\<rparr>"

definition hideAll :: "element \<Rightarrow> element" where
  "hideAll e = (if hasClass ''view-section'' e \<or> hasClass ''nav-item'' e then deactivate e else e)"

text \<open>Modelled from the spec: the markup of the page is not part of the script. Its
  contract is that each view is a container addressed as \<open>view-<id>\<close>; the script hides the
  views through the class \<open>view-section\<close>. An element is a view container when it carries
  that class, and it carries it exactly when its identifier starts with \<open>view-\<close>.\<close>

definition markupContract :: "element list \<Rightarrow> bool" where
  "markupContract d = (\<forall>e\<in>set d. hasClass ''view-section'' e = prefix ''view-'' (elId e))"

text \<open>The page as the browser hands it to the script: a document, a session history and
  the ready state; no listener, timer or effect yet.\<close>

definition loadPage :: "element list \<Rightarrow> (string \<times> string) list \<Rightarrow> nat \<Rightarrow> bool \<Rightarrow> page" where
  "loadPage d h i rc =
     \<lparr>doc = d, hist = h, histIdx = i, timers = [], effects = [], listeners = [],
      readyComplete = rc, defaultPrevented = False, pendingSends = [],
      showViewRef = Original, menuTrigger = None, navOverlay = None, isMenuOpen = False,
      currentProjectIndex = 0, sliderClosures = []\<rparr>"

text \<open>A small page used to evaluate the definitions: three views with their navigation
  links, the mobile menu, the contact form with its two modals, and a slider of three
  slides. The session history holds one page visited before.\<close>

definition el :: "string \<Rightarrow> string list \<Rightarrow> element" where
  "el i cs = \<lparr>elId = i, classList = cs, dataImg = []\<rparr>"

definition demoDoc :: "element list" where
  "demoDoc =
    [el ''view-home'' [''view-section'', ''active''],
     el ''view-about'' [''view-section''],
     el ''view-projects'' [''view-section''],
     el ''link-home'' [''nav-item'', ''active''],
     el ''link-about'' [''nav-item''],
     el ''link-projects'' [''nav-item''],
     el ''mobile-menu-trigger'' [],
     el ''nav-overlay'' [],
     el ''contact-form'' [],
     el ''message-modal'' [],
     el ''error-modal'' [],
     el ''projects-track'' [],
     el [] [''project-slide-item''],
     el [] [''project-slide-item''],
     el [] [''project-slide-item''],
     el ''projects-prev'' [''btn''],
     el ''projects-next'' [''btn'']]"

definition demoHist :: "(string \<times> string) list" where
  "demoHist = [(''https://example.org/'', []), (''https://example.org/portfolio/'', [])]"

definition demoPage :: page where
  "demoPage = page_of (script (loadPage demoDoc demoHist 1 False))"

text \<open>An identifier that a URL keeps as it is when it is written as a fragment.\<close>

definition fragmentSafe :: "string \<Rightarrow> bool" where
  "fragmentSafe s = list_all (\<lambda>c. \<not> in_fragment_percent_encode_set c) s"

text \<open>The entry of the session history the page is at.\<close>

definition currentEntry :: "page \<Rightarrow> string \<times> string" where
  "currentEntry p = hist p ! histIdx p"

text \<open>The sample document with no view and no link marked active yet, and the page the
  browser loads for it from a URL with the hash \<open>h\<close>.\<close>

definition demoDocIdle :: "element list" where
  "demoDocIdle = map deactivate demoDoc"

definition startPage :: "string \<Rightarrow> page" where
  "startPage h =
     loadPage demoDocIdle
       [(''https://example.org/'', []), (''https://example.org/portfolio/'', h)] 1 False"

text \<open>The nodes the slider takes for its slides.\<close>

definition slideEls :: "element list \<Rightarrow> node list" where
  "slideEls d = querySelectorAll_class d ''project-slide-item''"

fun threw :: "outcome \<Rightarrow> bool" where
  "threw (Completed p) = False"
| "threw (Threw e p) = True"

text \<open>The sample document without the trigger of the mobile menu; every other element is
  there, the contact form at position 7.\<close>

definition demoDocNoTrigger :: "element list" where
  "demoDocNoTrigger = take 6 demoDoc @ drop 7 demoDoc"

definition demoPageNoTrigger :: page where
  "demoPageNoTrigger = page_of (script (loadPage demoDocNoTrigger demoHist 1 False))"


text \<open>The invariant of the contact form, for the document \<open>d\<close> the page was loaded with:
  the identifiers of the elements are those of \<open>d\<close>, and the one listener for \<open>submit\<close> on
  the form is the one the script registered.\<close>

definition formInv :: "element list \<Rightarrow> node \<Rightarrow> page \<Rightarrow> bool" where
  "formInv d form p =
     (map elId (doc p) = map elId d \<and>
      getElementById d ''contact-form'' = Some form \<and>
      listenersFor (Node form) ''submit'' p = [OnContactSubmit form])"

text \<open>The page after the statements of the script that precede the registration of the
  click listener of the menu trigger.\<close>

definition scriptPrefix :: "page \<Rightarrow> page" where
  "scriptPrefix p0 =
     mobileMenuPreview
       (emit (Gsap ''menuTl'')
          ((addEventListener Window ''scroll'' OnScroll
             (emit (Gsap ''heroTimeline'')
                (initRefinedInteractions
                   ((case getElementById (doc p0) ''hero-aesthetic'' of
                       None \<Rightarrow> addEventListener Window ''DOMContentLoaded'' OnDOMContentLoaded
                                 (initPreloader (p0\<lparr>showViewRef := Original\<rparr>))
                     | Some hero \<Rightarrow>
                         addEventListener (Node hero) ''mousemove'' OnHeroMouseMove
                           (addEventListener Window ''DOMContentLoaded'' OnDOMContentLoaded
                              (initPreloader (p0\<lparr>showViewRef := Original\<rparr>))))
                    \<lparr>showViewRef := Wrapper1\<rparr>))))
           \<lparr>menuTrigger := getElementById (doc p0) ''mobile-menu-trigger'',
              navOverlay := getElementById (doc p0) ''nav-overlay'',
              isMenuOpen := False\<rparr>))"

section \<open>Properties of the document primitives\<close>

lemma index_where_Some: "index_where P xs = Some i \<Longrightarrow> i < length xs \<and> P (xs ! i)"
  by (induction xs arbitrary: i) (auto split: if_splits)

lemma getElementById_Some: "getElementById d s = Some i \<Longrightarrow> i < length d \<and> elId (d ! i) = s"
  by (auto simp: getElementById_def split: if_splits dest!: index_where_Some)

lemma getElementById_cong: "map elId d = map elId d' \<Longrightarrow> getElementById d s = getElementById d' s"
  by (simp add: getElementById_def)

lemma deactivate_idem: "deactivate (deactivate e) = deactivate e"
  by (simp add: deactivate_def token_remove_def)

lemma classList_remove_nth:
  "j < length (doc p) \<Longrightarrow>
   doc (classList_remove i ''active'' p) ! j = (if j = i then deactivate (doc p ! j) else doc p ! j)"
  by (simp add: classList_remove_def deactivate_def nth_list_update)

lemma fold_remove_len: "length (doc (fold (\<lambda>i. classList_remove i c) ns p)) = length (doc p)"
  by (induction ns arbitrary: p) (auto simp: classList_remove_def)

lemma fold_remove_nth:
  "j < length (doc p) \<Longrightarrow>
   doc (fold (\<lambda>i. classList_remove i ''active'') ns p) ! j =
     (if j \<in> set ns then deactivate (doc p ! j) else doc p ! j)"
proof (induction ns arbitrary: p)
  case Nil then show ?case by simp
next
  case (Cons i ns)
  have len: "j < length (doc (classList_remove i ''active'' p))" using Cons.prems by (simp add: classList_remove_def)
  show ?case using Cons.IH[OF len] Cons.prems
    by (simp add: classList_remove_nth deactivate_idem)
qed

lemma fold_remove_frame:
  "hist (fold (\<lambda>i. classList_remove i c) ns p) = hist p"
  "histIdx (fold (\<lambda>i. classList_remove i c) ns p) = histIdx p"
  "timers (fold (\<lambda>i. classList_remove i c) ns p) = timers p"
  "showViewRef (fold (\<lambda>i. classList_remove i c) ns p) = showViewRef p"
  "currentProjectIndex (fold (\<lambda>i. classList_remove i c) ns p) = currentProjectIndex p"
  "sliderClosures (fold (\<lambda>i. classList_remove i c) ns p) = sliderClosures p"
  "listeners (fold (\<lambda>i. classList_remove i c) ns p) = listeners p"
  "defaultPrevented (fold (\<lambda>i. classList_remove i c) ns p) = defaultPrevented p"
  "pendingSends (fold (\<lambda>i. classList_remove i c) ns p) = pendingSends p"
  "menuTrigger (fold (\<lambda>i. classList_remove i c) ns p) = menuTrigger p"
  "navOverlay (fold (\<lambda>i. classList_remove i c) ns p) = navOverlay p"
  "isMenuOpen (fold (\<lambda>i. classList_remove i c) ns p) = isMenuOpen p"
  "readyComplete (fold (\<lambda>i. classList_remove i c) ns p) = readyComplete p"
  "effects (fold (\<lambda>i. classList_remove i c) ns p) = effects p @ map (\<lambda>i. ClassRemove i c) ns"
  by (induction ns arbitrary: p; simp add: classList_remove_def)+

lemma removeActiveFromAll_doc:
  "doc (removeActiveFromAll c p) = map (\<lambda>e. if hasClass c e then deactivate e else e) (doc p)"
  by (rule nth_equalityI)
     (simp_all add: removeActiveFromAll_def fold_remove_len fold_remove_nth querySelectorAll_class_def)

lemma removeActiveFromAll_frame:
  "hist (removeActiveFromAll c p) = hist p"
  "histIdx (removeActiveFromAll c p) = histIdx p"
  "timers (removeActiveFromAll c p) = timers p"
  "showViewRef (removeActiveFromAll c p) = showViewRef p"
  "currentProjectIndex (removeActiveFromAll c p) = currentProjectIndex p"
  "sliderClosures (removeActiveFromAll c p) = sliderClosures p"
  "listeners (removeActiveFromAll c p) = listeners p"
  "defaultPrevented (removeActiveFromAll c p) = defaultPrevented p"
  "pendingSends (removeActiveFromAll c p) = pendingSends p"
  "menuTrigger (removeActiveFromAll c p) = menuTrigger p"
  "navOverlay (removeActiveFromAll c p) = navOverlay p"
  "isMenuOpen (removeActiveFromAll c p) = isMenuOpen p"
  "readyComplete (removeActiveFromAll c p) = readyComplete p"
  "effects (removeActiveFromAll c p) =
     effects p @ map (\<lambda>i. ClassRemove i ''active'') (querySelectorAll_class (doc p) c)"
  by (simp_all add: removeActiveFromAll_def fold_remove_frame)

lemma hasClass_deactivate: "hasClass c (deactivate e) = (c \<noteq> ''active'' \<and> hasClass c e)"
  by (auto simp: hasClass_def deactivate_def token_remove_def)

lemma hasClass_activate: "hasClass c (activate e) = (c = ''active'' \<or> hasClass c e)"
  by (auto simp: hasClass_def activate_def token_add_def)

lemma elId_deactivate: "elId (deactivate e) = elId e" by (simp add: deactivate_def)
lemma elId_activate: "elId (activate e) = elId e" by (simp add: activate_def)

lemma hidden_doc:
  "doc (removeActiveFromAll ''nav-item'' (removeActiveFromAll ''view-section'' p)) = map hideAll (doc p)"
  by (auto simp: removeActiveFromAll_doc hideAll_def hasClass_deactivate deactivate_idem)

lemma elId_hideAll: "elId (hideAll e) = elId e" by (simp add: hideAll_def elId_deactivate)

lemma hasClass_hideAll:
  "hasClass c (hideAll e) = (hasClass c e \<and> (c = ''active'' \<longrightarrow> \<not> hasClass ''view-section'' e \<and> \<not> hasClass ''nav-item'' e))"
  by (auto simp: hideAll_def hasClass_deactivate)

lemma filter_upt_single:
  "k < n \<Longrightarrow> (\<And>i. i < n \<Longrightarrow> P i = (i = k)) \<Longrightarrow> filter P [0..<n] = [k]"
proof (induction n)
  case 0 then show ?case by simp
next
  case (Suc n)
  show ?case
  proof (cases "k = n")
    case True
    have "filter P [0..<n] = []" using Suc.prems(2) True by (auto simp: filter_empty_conv)
    moreover have "P n" using Suc.prems(2)[of n] True by simp
    ultimately show ?thesis using True by simp
  next
    case False
    then have "k < n" using Suc.prems(1) by simp
    moreover have "\<not> P n" using Suc.prems(2)[of n] False by simp
    ultimately show ?thesis using Suc.IH Suc.prems(2) by simp
  qed
qed

lemma classList_add_doc:
  "doc (classList_add i c p) = (doc p)[i := (doc p ! i)\<lparr>classList := token_add c (classList (doc p ! i))\<rparr>]"
  by (simp add: classList_add_def)

lemma showView_doc: "doc (showView viewId p) = doc (showView_orig viewId p)"
  by (simp add: showView_def showView_w1_def showView_w2_def setTimeout_def Let_def split: showViewFn.splits)

lemma showView_orig_doc:
  "doc (showView_orig viewId p) =
    (case getElementById (doc p) (''view-'' @ viewId) of
       None \<Rightarrow> map hideAll (doc p)
     | Some tv \<Rightarrow>
        (case getElementById (doc p) (''link-'' @ viewId) of
           None \<Rightarrow> (map hideAll (doc p))[tv := activate (hideAll (doc p ! tv))]
         | Some lnk \<Rightarrow> (map hideAll (doc p))[tv := activate (hideAll (doc p ! tv)), lnk := activate (((map hideAll (doc p))[tv := activate (hideAll (doc p ! tv))]) ! lnk)]))"
proof -
  have ids: "map elId (map hideAll (doc p)) = map elId (doc p)" by (simp add: elId_hideAll comp_def)
  have g: "getElementById (map hideAll (doc p)) s = getElementById (doc p) s" for s
    using getElementById_cong[OF ids] .
  show ?thesis
    by (auto simp: showView_orig_def Let_def hidden_doc g classList_add_doc replaceState_def emit_def
        animateBadge_def activate_def split: option.splits dest: getElementById_Some)
qed

section \<open>Properties of view switching\<close>

lemma showView_one_active:
  assumes mc: "markupContract (doc p)"
    and tv: "getElementById (doc p) (''view-'' @ viewId) = Some tv"
  shows "activeViews (doc (showView viewId p)) = [tv] \<and>
         elId (doc (showView viewId p) ! tv) = ''view-'' @ viewId"
proof -
  let ?d = "doc (showView viewId p)"
  let ?h = "map hideAll (doc p)"
  have tvn: "tv < length (doc p)" and tvid: "elId (doc p ! tv) = ''view-'' @ viewId"
    using getElementById_Some[OF tv] by auto
  have vs: "hasClass ''view-section'' (doc p ! i) = prefix ''view-'' (elId (doc p ! i))"
    if "i < length (doc p)" for i
    using mc that by (auto simp: markupContract_def)
  have tvv: "hasClass ''view-section'' (doc p ! tv)"
    using vs[OF tvn] tvid by simp
  have d: "?d = (case getElementById (doc p) (''link-'' @ viewId) of
                  None \<Rightarrow> ?h[tv := activate (hideAll (doc p ! tv))]
                | Some l \<Rightarrow> ?h[tv := activate (hideAll (doc p ! tv)),
                                l := activate ((?h[tv := activate (hideAll (doc p ! tv))]) ! l)])"
    unfolding showView_doc showView_orig_doc tv by simp
  have len: "length ?d = length (doc p)"
    unfolding d by (simp split: option.splits)
  have act: "(hasClass ''view-section'' (?d ! i) \<and> hasClass ''active'' (?d ! i)) = (i = tv)"
    if i: "i < length (doc p)" for i
  proof (cases "getElementById (doc p) (''link-'' @ viewId)")
    case None
    then show ?thesis using i tvn tvv
      unfolding d by (auto simp: nth_list_update hasClass_activate hasClass_hideAll)
  next
    case (Some l)
    have ln: "l < length (doc p)" and lid: "elId (doc p ! l) = ''link-'' @ viewId"
      using getElementById_Some[OF Some] by auto
    have lv: "\<not> hasClass ''view-section'' (doc p ! l)"
      using vs[OF ln] lid by (simp add: prefix_def)
    then have "l \<noteq> tv" using tvv by auto
    then show ?thesis using i tvn tvv lv ln Some
      unfolding d by (auto simp: nth_list_update hasClass_activate hasClass_hideAll)
  qed
  have "activeViews ?d = [tv]"
    unfolding activeViews_def len by (rule filter_upt_single[OF tvn]) (rule act)
  moreover have "elId (?d ! tv) = ''view-'' @ viewId"
    using tvn tvid unfolding d
    by (auto simp: nth_list_update elId_activate elId_hideAll split: option.splits)
  ultimately show ?thesis by simp
qed


text \<open>
  C2. A call of \<open>showView\<close> with an identifier for which the page has a view leaves
  exactly one view marked active, and the identifier of that view is the argument. The
  statement holds for each of the three values of the binding \<open>showView\<close>.
\<close>

theorem showView_known_one_active:
  assumes "markupContract (doc p)"
    and "getElementById (doc p) (''view-'' @ viewId) = Some tv"
  shows "activeViews (doc (showView viewId p)) = [tv] \<and>
         elId (doc (showView viewId p) ! tv) = ''view-'' @ viewId"
  using assms by (rule showView_one_active)

theorem showView_known_one_active_witness:
  "markupContract (doc demoPage) \<and>
   getElementById (doc demoPage) (''view-'' @ ''about'') = Some 1 \<and>
   activeViews (doc (showView ''about'' demoPage)) = [1] \<and>
   elId (doc (showView ''about'' demoPage) ! 1) = ''view-'' @ ''about''"
proof -
  have a: "markupContract (doc demoPage)" by code_simp
  have b: "getElementById (doc demoPage) (''view-'' @ ''about'') = Some 1" by code_simp
  show ?thesis using a b showView_known_one_active[OF a b] by simp
qed

text \<open>
  C1. A call of \<open>showView\<close> with an identifier that matches no view: on the sample page the
  home view and its navigation link are marked active before the call, and after the call
  no view and no navigation link is marked active. The two statements that remove the
  marks run before the test for the target.
\<close>

theorem showView_unknown_deactivates_current:
  "getElementById (doc demoPage) (''view-'' @ ''nope'') = None \<and>
   activeViews (doc demoPage) = [0] \<and>
   activeNavItems (doc demoPage) = [3] \<and>
   activeViews (doc (showView ''nope'' demoPage)) = [] \<and>
   activeNavItems (doc (showView ''nope'' demoPage)) = []"
  by code_simp

lemma showView_unknown_hides_all:
  assumes "getElementById (doc p) (''view-'' @ viewId) = None"
  shows "activeViews (doc (showView viewId p)) = [] \<and> activeNavItems (doc (showView viewId p)) = []"
  using assms
  by (auto simp: showView_doc showView_orig_doc activeViews_def activeNavItems_def
      filter_empty_conv hasClass_hideAll)

subsection \<open>History\<close>

lemma hidden_getElementById:
  "getElementById (doc (removeActiveFromAll ''nav-item'' (removeActiveFromAll ''view-section'' p))) s =
   getElementById (doc p) s"
  by (rule getElementById_cong) (simp add: hidden_doc elId_hideAll comp_def)

lemma showView_hist:
  "hist (showView viewId p) =
     (if getElementById (doc p) (''view-'' @ viewId) = None then hist p
      else (hist p)[histIdx p := (fst (hist p ! histIdx p), parse_hash (CHR ''#'' # viewId))])"
  by (simp add: showView_def showView_w1_def showView_w2_def showView_orig_def Let_def
      setTimeout_def hidden_getElementById removeActiveFromAll_frame classList_add_def
      replaceState_def emit_def animateBadge_def
      split: showViewFn.splits option.splits)

lemma showView_histIdx: "histIdx (showView viewId p) = histIdx p"
  by (simp add: showView_def showView_w1_def showView_w2_def showView_orig_def Let_def
      setTimeout_def removeActiveFromAll_frame classList_add_def
      replaceState_def emit_def animateBadge_def
      split: showViewFn.splits option.splits)

lemma fold_showView_history:
  "histIdx (fold showView vs p) = histIdx p \<and>
   length (hist (fold showView vs p)) = length (hist p) \<and>
   (\<forall>j. j \<noteq> histIdx p \<longrightarrow> hist (fold showView vs p) ! j = hist p ! j)"
proof (induction vs arbitrary: p)
  case Nil
  show ?case by simp
next
  case (Cons v vs)
  show ?case using Cons.IH[of "showView v p"]
    by (simp add: showView_histIdx showView_hist)
qed

lemma dropWhile_none: "\<forall>x\<in>set xs. \<not> P x \<Longrightarrow> dropWhile P xs = xs"
  by (cases xs) auto

lemma encode_set_covers:
  "c0_control_or_space c \<Longrightarrow> in_fragment_percent_encode_set c"
  "ascii_tab_or_newline c \<Longrightarrow> in_fragment_percent_encode_set c"
proof -
  have sp: "(of_char c :: nat) = 0x20 \<Longrightarrow> c = CHR '' ''"
    by (rule of_char_eqI[where 'a = nat]) simp
  show "c0_control_or_space c \<Longrightarrow> in_fragment_percent_encode_set c"
    using sp by (auto simp: c0_control_or_space_def in_fragment_percent_encode_set_def)
  show "ascii_tab_or_newline c \<Longrightarrow> in_fragment_percent_encode_set c"
    by (auto simp: ascii_tab_or_newline_def in_fragment_percent_encode_set_def)
qed

lemma percent_encode_fragment_safe:
  "fragmentSafe s \<Longrightarrow> percent_encode_fragment s = s"
  by (induction s) (simp_all add: fragmentSafe_def percent_encode_fragment_def)

lemma url_input_strip_safe:
  assumes "fragmentSafe s"
  shows "url_input_strip (CHR ''#'' # s) = CHR ''#'' # s"
proof -
  have s: "\<forall>c\<in>set s. \<not> c0_control_or_space c \<and> \<not> ascii_tab_or_newline c"
    using assms encode_set_covers by (auto simp: fragmentSafe_def list_all_iff)
  have h: "\<not> c0_control_or_space CHR ''#''" "\<not> ascii_tab_or_newline CHR ''#''"
    by (simp_all add: c0_control_or_space_def ascii_tab_or_newline_def)
  have a: "dropWhile c0_control_or_space (CHR ''#'' # s) = CHR ''#'' # s"
    using h by simp
  have b: "dropWhile c0_control_or_space (rev (CHR ''#'' # s)) = rev (CHR ''#'' # s)"
    by (rule dropWhile_none) (use s h in auto)
  have c: "filter (\<lambda>c. \<not> ascii_tab_or_newline c) (CHR ''#'' # s) = CHR ''#'' # s"
    using s h by (simp add: filter_id_conv)
  show ?thesis
    unfolding url_input_strip_def a b rev_rev_ident c ..
qed

lemma parse_hash_safe: "fragmentSafe s \<Longrightarrow> parse_hash (CHR ''#'' # s) = CHR ''#'' # s"
  by (simp add: parse_hash_def url_input_strip_safe percent_encode_fragment_safe)

text \<open>The parser at work on identifiers that a URL does not keep as they are: a space, a
  non-ASCII letter (two bytes), a trailing space and a tab.\<close>

lemma parse_hash_encodes:
  "parse_hash ''#a b'' = ''#a%20b'' \<and>
   parse_hash (''#caf'' @ [CHR 0xC3, CHR 0xA9]) = ''#caf%C3%A9'' \<and>
   parse_hash ''#home '' = ''#home'' \<and>
   parse_hash (''#a'' @ [CHR 0x09] @ ''b'') = ''#ab''"
  by code_simp

text \<open>
  C3. After any sequence of calls of \<open>showView\<close>, a further call with a known identifier
  replaces the current history entry: the session history has as many entries as before
  the first call and is at the same position, so that going back leads to the entry that
  preceded the page before the first call. The hash of the current entry is what the URL
  parser makes of \<open>#\<close> and the identifier; that is \<open>#\<close> followed by the identifier
  itself whenever the identifier has no byte of the fragment percent-encode set.
\<close>

theorem showView_replaces_history_entry:
  assumes idx: "histIdx p < length (hist p)"
    and prior: "0 < histIdx p"
    and known: "getElementById (doc (fold showView vs p)) (''view-'' @ viewId) \<noteq> None"
  shows "snd (currentEntry (showView viewId (fold showView vs p))) = parse_hash (CHR ''#'' # viewId) \<and>
         (fragmentSafe viewId \<longrightarrow>
            snd (currentEntry (showView viewId (fold showView vs p))) = CHR ''#'' # viewId) \<and>
         length (hist (showView viewId (fold showView vs p))) = length (hist p) \<and>
         histIdx (showView viewId (fold showView vs p)) = histIdx p \<and>
         currentEntry (history_back (showView viewId (fold showView vs p))) = currentEntry (history_back p)"
proof -
  let ?q = "fold showView vs p"
  have q: "histIdx ?q = histIdx p" "length (hist ?q) = length (hist p)"
    "\<And>j. j \<noteq> histIdx p \<Longrightarrow> hist ?q ! j = hist p ! j"
    using fold_showView_history[of vs p] by auto
  have h: "snd (currentEntry (showView viewId ?q)) = parse_hash (CHR ''#'' # viewId)"
    using known idx q by (auto simp: currentEntry_def showView_hist showView_histIdx)
  have "fragmentSafe viewId \<longrightarrow> snd (currentEntry (showView viewId ?q)) = CHR ''#'' # viewId"
    using h parse_hash_safe[of viewId] by simp
  moreover have "length (hist (showView viewId ?q)) = length (hist p)"
    using q by (simp add: showView_hist)
  moreover have "histIdx (showView viewId ?q) = histIdx p"
    using q by (simp add: showView_histIdx)
  moreover have "currentEntry (history_back (showView viewId ?q)) = currentEntry (history_back p)"
    using prior q(1) q(3)[of "histIdx p - 1"]
    by (simp add: currentEntry_def history_back_def showView_hist showView_histIdx)
  ultimately show ?thesis using h by simp
qed

theorem showView_replaces_history_entry_witness:
  "histIdx demoPage < length (hist demoPage) \<and> 0 < histIdx demoPage \<and>
   getElementById (doc (fold showView [''about'', ''projects''] demoPage)) (''view-'' @ ''home'') \<noteq> None \<and>
   fragmentSafe ''home'' \<and>
   snd (currentEntry (showView ''home'' (fold showView [''about'', ''projects''] demoPage))) = ''#home'' \<and>
   length (hist (showView ''home'' (fold showView [''about'', ''projects''] demoPage))) = 2 \<and>
   currentEntry (history_back (showView ''home'' (fold showView [''about'', ''projects''] demoPage)))
     = (''https://example.org/'', [])"
proof -
  have a: "histIdx demoPage < length (hist demoPage)" by code_simp
  have b: "0 < histIdx demoPage" by code_simp
  have c: "getElementById (doc (fold showView [''about'', ''projects''] demoPage)) (''view-'' @ ''home'') \<noteq> None"
    by code_simp
  have s: "fragmentSafe ''home''" by code_simp
  have d: "length (hist demoPage) = 2" by code_simp
  have e: "currentEntry (history_back demoPage) = (''https://example.org/'', [])" by code_simp
  have f: "parse_hash ''#home'' = ''#home''" by code_simp
  show ?thesis
    using a b c s d e f showView_replaces_history_entry[OF a b c] by simp
qed

subsection \<open>Order of effects\<close>







subsection \<open>Scheduled setup routines\<close>

lemma showView_orig_timers: "timers (showView_orig viewId p) = timers p"
  by (simp add: showView_orig_def Let_def removeActiveFromAll_frame classList_add_def
      replaceState_def emit_def animateBadge_def split: option.splits)

text \<open>
  C6, as amended. Once both closures are installed, every call of \<open>showView\<close> schedules
  the rebinding of the hover listeners with a delay of 100 ms, whatever the identifier;
  it schedules the initialisation of the slider, with the same delay, only for the
  identifier \<open>projects\<close>. A scheduled task runs the routine it names.
\<close>

theorem showView_schedules_setup:
  assumes "showViewRef p = Wrapper2"
  shows "timers (showView viewId p) =
           timers p @ [(InitRefinedInteractions, 100)]
           @ (if viewId = ''projects'' then [(InitProjectsSlider, 100)] else []) \<and>
         run_task InitRefinedInteractions q = initRefinedInteractions q \<and>
         run_task InitProjectsSlider q = page_of (initProjectsSlider q)"
  using assms
  by (simp add: showView_def showView_w2_def showView_w1_def setTimeout_def Let_def
      showView_orig_timers run_task_def)

theorem showView_schedules_setup_witness:
  "showViewRef demoPage = Wrapper2 \<and>
   timers (showView ''projects'' demoPage) = [(InitRefinedInteractions, 100), (InitProjectsSlider, 100)] \<and>
   timers (showView ''home'' demoPage) = [(InitRefinedInteractions, 100)]"
proof -
  have a: "showViewRef demoPage = Wrapper2" by code_simp
  have b: "timers demoPage = []" by code_simp
  show ?thesis
    using a b showView_schedules_setup[OF a, of "''projects''"] showView_schedules_setup[OF a, of "''home''"]
    by simp
qed

text \<open>
  C6, as stated, fails on the sample page: entering the view \<open>about\<close> schedules the
  rebinding of the hover listeners only, and after that timer has fired no slider
  initialisation has run and no timer is left.
\<close>

theorem showView_about_skips_slider_setup:
  "showViewRef demoPage = Wrapper2 \<and>
   activeViews (doc (showView ''about'' demoPage)) = [1] \<and>
   timers (showView ''about'' demoPage) = [(InitRefinedInteractions, 100)] \<and>
   sliderClosures (run [CallShowView ''about'', TimerFires 0] demoPage) = [] \<and>
   timers (run [CallShowView ''about'', TimerFires 0] demoPage) = []"
  by code_simp

subsection \<open>Start-up\<close>

text \<open>What the listener of \<open>DOMContentLoaded\<close> does to a page, whatever the page.\<close>

lemma onDOMContentLoaded_activates:
  assumes mc: "markupContract (doc p)"
    and home: "getElementById (doc p) (''view-'' @ ''home'') = Some h"
    and hash: "location_hash p = (if fragment = [] then [] else CHR ''#'' # fragment)"
  shows "(fragment \<noteq> [] \<and> getElementById (doc p) (''view-'' @ fragment) = Some v
            \<longrightarrow> activeViews (doc (onDOMContentLoaded p)) = [v]) \<and>
         (fragment = [] \<or> getElementById (doc p) (''view-'' @ fragment) = None
            \<longrightarrow> activeViews (doc (onDOMContentLoaded p)) = [h])"
proof -
  let ?p1 = "emit (Gsap ''nav'') p"
  have d1: "doc ?p1 = doc p" and h1: "location_hash ?p1 = location_hash p"
    by (simp_all add: emit_def location_hash_def)
  have cur: "remove1 CHR ''#'' (location_hash ?p1) = fragment"
    unfolding h1 hash by simp
  have mc1: "markupContract (doc ?p1)" using mc by (simp add: d1)
  have A: "activeViews (doc (onDOMContentLoaded p)) = [v]"
    if "fragment \<noteq> []" "getElementById (doc p) (''view-'' @ fragment) = Some v"
  proof -
    have g: "getElementById (doc ?p1) (''view-'' @ fragment) = Some v" using that by (simp add: d1)
    have "onDOMContentLoaded p = showView fragment ?p1"
      using that by (simp add: onDOMContentLoaded_def Let_def cur d1 del: remove1.simps)
    then show ?thesis using showView_one_active[OF mc1 g] by simp
  qed
  have B: "activeViews (doc (onDOMContentLoaded p)) = [h]"
    if "fragment = [] \<or> getElementById (doc p) (''view-'' @ fragment) = None"
  proof -
    have g: "getElementById (doc ?p1) (''view-'' @ ''home'') = Some h" using home by (simp add: d1)
    have "onDOMContentLoaded p = showView ''home'' ?p1"
      using that by (auto simp add: onDOMContentLoaded_def Let_def cur d1 simp del: remove1.simps)
    then show ?thesis using showView_one_active[OF mc1 g] by simp
  qed
  show ?thesis using A B by blast
qed

section \<open>What the operations leave alone\<close>

lemma fold_frame: "(\<And>x s. F (g x s) = F s) \<Longrightarrow> F (fold g xs s) = F s"
  by (induction xs arbitrary: s) auto

lemma fold_invariant: "(\<And>x s. I s \<Longrightarrow> I (g x s)) \<Longrightarrow> I s \<Longrightarrow> I (fold g xs s)"
  by (induction xs arbitrary: s) auto

lemma querySelectorAll_class_update:
  assumes "i < length d \<Longrightarrow> hasClass c e = hasClass c (d ! i)"
  shows "querySelectorAll_class (d[i := e]) c = querySelectorAll_class d c"
proof -
  have "hasClass c (d[i := e] ! x) = hasClass c (d ! x)" if "x < length d" for x
    using that assms by (cases "x = i") simp_all
  then show ?thesis
    by (auto simp: querySelectorAll_class_def intro!: filter_cong)
qed

lemma slideEls_classList_add [simp]:
  "slideEls (doc (classList_add i ''active'' p)) = slideEls (doc p)"
  unfolding slideEls_def classList_add_def
  by (simp add: querySelectorAll_class_update hasClass_def token_add_def)

lemma slideEls_classList_remove [simp]:
  "slideEls (doc (classList_remove i ''active'' p)) = slideEls (doc p)"
  unfolding slideEls_def classList_remove_def
  by (simp add: querySelectorAll_class_update hasClass_def token_remove_def)

lemma index_classList [simp]:
  "currentProjectIndex (classList_add i c p) = currentProjectIndex p"
  "currentProjectIndex (classList_remove i c p) = currentProjectIndex p"
  "sliderClosures (classList_add i c p) = sliderClosures p"
  "sliderClosures (classList_remove i c p) = sliderClosures p"
  by (simp_all add: classList_add_def classList_remove_def)

lemma frame_emit [simp]:
  "doc (emit e p) = doc p"
  "currentProjectIndex (emit e p) = currentProjectIndex p"
  "sliderClosures (emit e p) = sliderClosures p"
  by (simp_all add: emit_def)

lemma frame_setTimeout [simp]:
  "doc (setTimeout t ms p) = doc p"
  "currentProjectIndex (setTimeout t ms p) = currentProjectIndex p"
  "sliderClosures (setTimeout t ms p) = sliderClosures p"
  by (simp_all add: setTimeout_def)

lemma frame_addEventListener [simp]:
  "doc (addEventListener t ty h p) = doc p"
  "currentProjectIndex (addEventListener t ty h p) = currentProjectIndex p"
  "sliderClosures (addEventListener t ty h p) = sliderClosures p"
  by (simp_all add: addEventListener_def)

lemma frame_replaceState [simp]:
  "doc (replaceState u p) = doc p"
  "currentProjectIndex (replaceState u p) = currentProjectIndex p"
  "sliderClosures (replaceState u p) = sliderClosures p"
  by (simp_all add: replaceState_def)

lemma frame_replaceWithClone [simp]:
  "doc (replaceWithClone n p) = doc p"
  "currentProjectIndex (replaceWithClone n p) = currentProjectIndex p"
  "sliderClosures (replaceWithClone n p) = sliderClosures p"
  by (simp_all add: replaceWithClone_def)

lemma frame_removeActiveFromAll [simp]:
  "slideEls (doc (removeActiveFromAll c p)) = slideEls (doc p)"
  "currentProjectIndex (removeActiveFromAll c p) = currentProjectIndex p"
  "sliderClosures (removeActiveFromAll c p) = sliderClosures p"
  unfolding removeActiveFromAll_def
  by (rule fold_frame, simp)+

lemma frame_showView_orig [simp]:
  "slideEls (doc (showView_orig v p)) = slideEls (doc p)"
  "currentProjectIndex (showView_orig v p) = currentProjectIndex p"
  "sliderClosures (showView_orig v p) = sliderClosures p"
  by (simp_all add: showView_orig_def Let_def animateBadge_def split: option.splits)

lemma frame_showView [simp]:
  "slideEls (doc (showView v p)) = slideEls (doc p)"
  "currentProjectIndex (showView v p) = currentProjectIndex p"
  "sliderClosures (showView v p) = sliderClosures p"
  by (simp_all add: showView_def showView_w1_def showView_w2_def Let_def split: showViewFn.splits)

lemma frame_initRefinedInteractions [simp]:
  "doc (initRefinedInteractions p) = doc p"
  "currentProjectIndex (initRefinedInteractions p) = currentProjectIndex p"
  "sliderClosures (initRefinedInteractions p) = sliderClosures p"
  unfolding initRefinedInteractions_def
  by (rule fold_frame, simp)+

lemma frame_updateSlider [simp]:
  "slideEls (doc (updateSlider c p)) = slideEls (doc p)"
  "currentProjectIndex (updateSlider c p) = currentProjectIndex p"
  "sliderClosures (updateSlider c p) = sliderClosures p"
proof -
  let ?g = "\<lambda>(index, slide) q.
              if int index = currentProjectIndex q
              then classList_add slide ''active'' q
              else classList_remove slide ''active'' q"
  have a: "slideEls (doc (fold ?g xs s)) = slideEls (doc s)" for xs s
    by (rule fold_frame) (simp split: prod.splits)
  have b: "currentProjectIndex (fold ?g xs s) = currentProjectIndex s" for xs s
    by (rule fold_frame) (simp split: prod.splits)
  have c: "sliderClosures (fold ?g xs s) = sliderClosures s" for xs s
    by (rule fold_frame) (simp split: prod.splits)
  show "slideEls (doc (updateSlider c p)) = slideEls (doc p)"
    "currentProjectIndex (updateSlider c p) = currentProjectIndex p"
    "sliderClosures (updateSlider c p) = sliderClosures p"
    by (simp_all add: updateSlider_def Let_def a b c)
qed

lemma initProjectsSlider_index [simp]:
  "currentProjectIndex (page_of (initProjectsSlider p)) = currentProjectIndex p"
  by (simp add: initProjectsSlider_def Let_def split: option.splits)

lemma initProjectsSlider_slideEls [simp]:
  "slideEls (doc (page_of (initProjectsSlider p))) = slideEls (doc p)"
  by (simp add: initProjectsSlider_def Let_def split: option.splits)

lemma run_task_index [simp]: "currentProjectIndex (run_task t p) = currentProjectIndex p"
  by (simp add: run_task_def split: task.splits)

lemma timers_fire_index:
  "currentProjectIndex (fold step (map TimerFires ks) p) = currentProjectIndex p"
  by (induction ks arbitrary: p) simp_all

text \<open>
  C10. \<open>initProjectsSlider\<close> never writes the slider index: whether it returns early,
  throws or completes, the index after the call is the index before it. Entering the
  projects view, which schedules the initialisation, and letting any of the pending
  timers fire afterwards therefore keeps the selected slide.
\<close>

theorem initProjectsSlider_keeps_index:
  "currentProjectIndex (page_of (initProjectsSlider p)) = currentProjectIndex p \<and>
   currentProjectIndex (run (CallShowView ''projects'' # map TimerFires ks) p) = currentProjectIndex p"
  by (simp add: run_def timers_fire_index)

theorem initProjectsSlider_keeps_index_witness:
  "currentProjectIndex (run [Dispatch Window ''load'' NoPayload,
                             Dispatch (Node 16) ''click'' NoPayload,
                             Dispatch (Node 16) ''click'' NoPayload] demoPage) = 2 \<and>
   length (sliderClosures
     (run (CallShowView ''projects'' # map TimerFires [0, 0])
        (run [Dispatch Window ''load'' NoPayload,
              Dispatch (Node 16) ''click'' NoPayload,
              Dispatch (Node 16) ''click'' NoPayload] demoPage))) = 2 \<and>
   currentProjectIndex
     (run (CallShowView ''projects'' # map TimerFires [0, 0])
        (run [Dispatch Window ''load'' NoPayload,
              Dispatch (Node 16) ''click'' NoPayload,
              Dispatch (Node 16) ''click'' NoPayload] demoPage)) = 2"
proof -
  let ?p = "run [Dispatch Window ''load'' NoPayload,
                 Dispatch (Node 16) ''click'' NoPayload,
                 Dispatch (Node 16) ''click'' NoPayload] demoPage"
  have a: "currentProjectIndex ?p = 2" by code_simp
  have b: "length (sliderClosures (run (CallShowView ''projects'' # map TimerFires [0, 0]) ?p)) = 2"
    by code_simp
  show ?thesis
    using a b initProjectsSlider_keeps_index[of ?p "[0, 0]"] by simp
qed

section \<open>The script as a whole\<close>

text \<open>
  C9. On the sample document without the trigger of the mobile menu the script throws at
  the registration of the trigger's click listener. The contact form and the slider are
  in the document, but the statements after that point never ran: no submit listener and
  no load listener is registered and the second closure of \<open>showView\<close> is not installed.
  A submit event then reaches the browser's own submission, and neither the load event
  nor entering the projects view initialises the slider.
\<close>

theorem missing_menu_trigger_stops_script:
  "getElementById demoDocNoTrigger ''mobile-menu-trigger'' = None \<and>
   getElementById demoDocNoTrigger ''contact-form'' = Some 7 \<and>
   getElementById demoDocNoTrigger ''projects-track'' = Some 10 \<and>
   threw (script (loadPage demoDocNoTrigger demoHist 1 False)) \<and>
   listenersFor (Node 7) ''submit'' demoPageNoTrigger = [] \<and>
   listenersFor Window ''load'' demoPageNoTrigger = [] \<and>
   showViewRef demoPageNoTrigger = Wrapper1 \<and>
   effects (dispatchEvent (Node 7) ''submit'' NoPayload demoPageNoTrigger)
     = effects demoPageNoTrigger @ [NativeSubmit] \<and>
   sliderClosures (run [Dispatch Window ''load'' NoPayload, CallShowView ''projects'',
                        TimerFires 0] demoPageNoTrigger) = [] \<and>
   timers (run [Dispatch Window ''load'' NoPayload, CallShowView ''projects'',
                TimerFires 0] demoPageNoTrigger) = []"
  by code_simp

section \<open>The slider index\<close>
















lemma frame_toggleMobileMenu [simp]:
  "slideEls (doc (page_of (toggleMobileMenu tv p))) = slideEls (doc p)"
  "currentProjectIndex (page_of (toggleMobileMenu tv p)) = currentProjectIndex p"
  "sliderClosures (page_of (toggleMobileMenu tv p)) = sliderClosures p"
  by (simp_all add: toggleMobileMenu_def Let_def split: option.splits)

lemma frame_modals [simp]:
  "slideEls (doc (page_of (showMessageModal p))) = slideEls (doc p)"
  "currentProjectIndex (page_of (showMessageModal p)) = currentProjectIndex p"
  "sliderClosures (page_of (showMessageModal p)) = sliderClosures p"
  "slideEls (doc (page_of (showErrorModal p))) = slideEls (doc p)"
  "currentProjectIndex (page_of (showErrorModal p)) = currentProjectIndex p"
  "sliderClosures (page_of (showErrorModal p)) = sliderClosures p"
  "slideEls (doc (page_of (closeMessageModal p))) = slideEls (doc p)"
  "currentProjectIndex (page_of (closeMessageModal p)) = currentProjectIndex p"
  "sliderClosures (page_of (closeMessageModal p)) = sliderClosures p"
  "slideEls (doc (page_of (closeErrorModal p))) = slideEls (doc p)"
  "currentProjectIndex (page_of (closeErrorModal p)) = currentProjectIndex p"
  "sliderClosures (page_of (closeErrorModal p)) = sliderClosures p"
  by (simp_all add: showMessageModal_def showErrorModal_def closeMessageModal_def
      closeErrorModal_def split: option.splits)

lemma frame_sendForm [simp]:
  "slideEls (doc (page_of (sendFormFulfilled f p))) = slideEls (doc p)"
  "currentProjectIndex (page_of (sendFormFulfilled f p)) = currentProjectIndex p"
  "sliderClosures (page_of (sendFormFulfilled f p)) = sliderClosures p"
  "slideEls (doc (page_of (sendFormRejected p))) = slideEls (doc p)"
  "currentProjectIndex (page_of (sendFormRejected p)) = currentProjectIndex p"
  "sliderClosures (page_of (sendFormRejected p)) = sliderClosures p"
  by (simp_all add: sendFormFulfilled_def sendFormRejected_def showMessageModal_def
      showErrorModal_def split: option.splits)

lemma frame_onContactSubmit [simp]:
  "doc (onContactSubmit f p) = doc p"
  "currentProjectIndex (onContactSubmit f p) = currentProjectIndex p"
  "sliderClosures (onContactSubmit f p) = sliderClosures p"
  by (simp_all add: onContactSubmit_def Let_def)

lemma frame_onDOMContentLoaded [simp]:
  "slideEls (doc (onDOMContentLoaded p)) = slideEls (doc p)"
  "currentProjectIndex (onDOMContentLoaded p) = currentProjectIndex p"
  "sliderClosures (onDOMContentLoaded p) = sliderClosures p"
  by (simp_all add: onDOMContentLoaded_def Let_def)






lemma frame_initPreloader [simp]:
  "doc (initPreloader p) = doc p"
  "currentProjectIndex (initPreloader p) = currentProjectIndex p"
  "sliderClosures (initPreloader p) = sliderClosures p"
  by (simp_all add: initPreloader_def Let_def)

lemma frame_mobileMenuPreview [simp]:
  "doc (mobileMenuPreview p) = doc p"
  "currentProjectIndex (mobileMenuPreview p) = currentProjectIndex p"
  "sliderClosures (mobileMenuPreview p) = sliderClosures p"
  unfolding mobileMenuPreview_def Let_def
  by (auto split: option.splits intro!: fold_frame)

lemma script_slider_state:
  "doc (page_of (script (loadPage d h i rc))) = d \<and>
   currentProjectIndex (page_of (script (loadPage d h i rc))) = 0 \<and>
   sliderClosures (page_of (script (loadPage d h i rc))) = []"
  by (simp add: script_def Let_def loadPage_def split: option.splits)






section \<open>Identifiers and listeners\<close>

lemma map_elId_update:
  "elId e = elId (d ! i) \<Longrightarrow> map elId (d[i := e]) = map elId d"
  by (cases "i < length d") (simp_all add: map_update list_update_same_conv list_update_beyond)

lemma ids_classList [simp]:
  "map elId (doc (classList_add i c p)) = map elId (doc p)"
  "map elId (doc (classList_remove i c p)) = map elId (doc p)"
  by (simp_all add: classList_add_def classList_remove_def map_elId_update)

lemma listeners_prims [simp]:
  "listeners (classList_add i c p) = listeners p"
  "listeners (classList_remove i c p) = listeners p"
  "listeners (emit e p) = listeners p"
  "listeners (setTimeout t ms p) = listeners p"
  "listeners (replaceState u p) = listeners p"
  by (simp_all add: classList_add_def classList_remove_def emit_def setTimeout_def replaceState_def)

lemma listenersFor_cong:
  "listeners q = listeners p \<Longrightarrow> listenersFor t ty q = listenersFor t ty p"
  by (simp add: listenersFor_def)

lemma listenersFor_update [simp]:
  "listenersFor t ty (p\<lparr>sliderClosures := a\<rparr>) = listenersFor t ty p"
  "listenersFor t ty (p\<lparr>defaultPrevented := b\<rparr>) = listenersFor t ty p"
  "listenersFor t ty (p\<lparr>pendingSends := c\<rparr>) = listenersFor t ty p"
  "listenersFor t ty (p\<lparr>timers := e\<rparr>) = listenersFor t ty p"
  "listenersFor t ty (p\<lparr>showViewRef := f\<rparr>) = listenersFor t ty p"
  "listenersFor t ty (p\<lparr>currentProjectIndex := g\<rparr>) = listenersFor t ty p"
  by (simp_all add: listenersFor_def)

lemma listenersFor_addEventListener:
  "listenersFor t ty (addEventListener t' ty' h p) =
     listenersFor t ty p @ (if t' = t \<and> ty' = ty then [h] else [])"
  by (simp add: listenersFor_def addEventListener_def)

lemma listenersFor_replaceWithClone:
  "t \<noteq> Node n \<Longrightarrow> listenersFor t ty (replaceWithClone n p) = listenersFor t ty p"
  by (auto simp: listenersFor_def replaceWithClone_def intro!: arg_cong[where f = "map _"] filter_cong)

lemma ids_listeners_removeActiveFromAll [simp]:
  "map elId (doc (removeActiveFromAll c p)) = map elId (doc p)"
  "listeners (removeActiveFromAll c p) = listeners p"
  unfolding removeActiveFromAll_def by (rule fold_frame, simp)+

lemma ids_listeners_showView [simp]:
  "map elId (doc (showView v p)) = map elId (doc p)"
  "listeners (showView v p) = listeners p"
  by (simp_all add: showView_def showView_w1_def showView_w2_def showView_orig_def Let_def
      animateBadge_def split: showViewFn.splits option.splits)

lemma ids_listeners_updateSlider [simp]:
  "map elId (doc (updateSlider c p)) = map elId (doc p)"
  "listeners (updateSlider c p) = listeners p"
proof -
  let ?g = "\<lambda>(index, slide) q.
              if int index = currentProjectIndex q
              then classList_add slide ''active'' q
              else classList_remove slide ''active'' q"
  have a: "map elId (doc (fold ?g xs s)) = map elId (doc s)" for xs s
    by (rule fold_frame) (simp split: prod.splits)
  have b: "listeners (fold ?g xs s) = listeners s" for xs s
    by (rule fold_frame) (simp split: prod.splits)
  show "map elId (doc (updateSlider c p)) = map elId (doc p)"
    "listeners (updateSlider c p) = listeners p"
    by (simp_all add: updateSlider_def Let_def a b)
qed

lemma listenersFor_updateSlider:
  "listenersFor t ty (updateSlider c p) = listenersFor t ty p"
  by (rule listenersFor_cong) simp

lemma submit_initRefinedInteractions [simp]:
  "listenersFor t ''submit'' (initRefinedInteractions p) = listenersFor t ''submit'' p"
  unfolding initRefinedInteractions_def
  by (rule fold_frame) (simp add: listenersFor_addEventListener)

lemma ids_initProjectsSlider [simp]:
  "map elId (doc (page_of (initProjectsSlider p))) = map elId (doc p)"
  by (simp add: initProjectsSlider_def Let_def split: option.splits)

lemma submit_initProjectsSlider:
  assumes "getElementById (doc p) ''contact-form'' = Some form"
  shows "listenersFor (Node form) ''submit'' (page_of (initProjectsSlider p))
           = listenersFor (Node form) ''submit'' p"
proof -
  have f: "elId (doc p ! form) = ''contact-form''" using getElementById_Some[OF assms] by simp
  have ne: "Node form \<noteq> Node b"
    if "getElementById (doc p) ''projects-prev'' = Some b \<or> getElementById (doc p) ''projects-next'' = Some b"
    for b
    using that f by (auto dest!: getElementById_Some)
  show ?thesis
    using ne
    by (auto simp: initProjectsSlider_def Let_def listenersFor_addEventListener
        listenersFor_replaceWithClone listenersFor_updateSlider
        split: option.splits)
qed

lemma ids_listeners_toggleMobileMenu [simp]:
  "map elId (doc (page_of (toggleMobileMenu tv p))) = map elId (doc p)"
  "listeners (page_of (toggleMobileMenu tv p)) = listeners p"
  by (simp_all add: toggleMobileMenu_def Let_def split: option.splits)

lemma ids_listeners_modals [simp]:
  "map elId (doc (page_of (showMessageModal p))) = map elId (doc p)"
  "listeners (page_of (showMessageModal p)) = listeners p"
  "map elId (doc (page_of (showErrorModal p))) = map elId (doc p)"
  "listeners (page_of (showErrorModal p)) = listeners p"
  "map elId (doc (page_of (closeMessageModal p))) = map elId (doc p)"
  "listeners (page_of (closeMessageModal p)) = listeners p"
  "map elId (doc (page_of (closeErrorModal p))) = map elId (doc p)"
  "listeners (page_of (closeErrorModal p)) = listeners p"
  by (simp_all add: showMessageModal_def showErrorModal_def closeMessageModal_def
      closeErrorModal_def split: option.splits)

lemma ids_listeners_sendForm [simp]:
  "map elId (doc (page_of (sendFormFulfilled f p))) = map elId (doc p)"
  "listeners (page_of (sendFormFulfilled f p)) = listeners p"
  "map elId (doc (page_of (sendFormRejected p))) = map elId (doc p)"
  "listeners (page_of (sendFormRejected p)) = listeners p"
  by (simp_all add: sendFormFulfilled_def sendFormRejected_def showMessageModal_def
      showErrorModal_def split: option.splits)

lemma listeners_onContactSubmit [simp]: "listeners (onContactSubmit f p) = listeners p"
  by (simp add: onContactSubmit_def Let_def)

lemma ids_listeners_onDOMContentLoaded [simp]:
  "map elId (doc (onDOMContentLoaded p)) = map elId (doc p)"
  "listeners (onDOMContentLoaded p) = listeners p"
  by (simp_all add: onDOMContentLoaded_def Let_def)

lemma ids_listeners_slider_handlers [simp]:
  "map elId (doc (onNextClick k p)) = map elId (doc p)"
  "listeners (onNextClick k p) = listeners p"
  "map elId (doc (onPrevClick k p)) = map elId (doc p)"
  "listeners (onPrevClick k p) = listeners p"
  "map elId (doc (onTouchStart k pl p)) = map elId (doc p)"
  "listeners (onTouchStart k pl p) = listeners p"
  "map elId (doc (onTouchEnd k pl p)) = map elId (doc p)"
  "listeners (onTouchEnd k pl p) = listeners p"
  "map elId (doc (onResize k p)) = map elId (doc p)"
  "listeners (onResize k p) = listeners p"
  by (simp_all add: onNextClick_def onPrevClick_def onTouchStart_def onTouchEnd_def onResize_def
      Let_def split: payload.splits)

lemma formInv_same:
  "formInv d form p \<Longrightarrow> map elId (doc q) = map elId (doc p) \<Longrightarrow>
   listenersFor (Node form) ''submit'' q = listenersFor (Node form) ''submit'' p \<Longrightarrow>
   formInv d form q"
  by (simp add: formInv_def)

lemma formInv_neutral:
  "formInv d form p \<Longrightarrow> map elId (doc q) = map elId (doc p) \<Longrightarrow>
   listeners q = listeners p \<Longrightarrow> formInv d form q"
  by (simp add: formInv_def listenersFor_def)

lemma formInv_form: "formInv d form p \<Longrightarrow> getElementById (doc p) ''contact-form'' = Some form"
  using getElementById_cong[of "doc p" d] by (simp add: formInv_def)

lemma formInv_initProjectsSlider:
  assumes a: "formInv d form p"
  shows "formInv d form (page_of (initProjectsSlider p))"
  using a submit_initProjectsSlider[OF formInv_form[OF a]] by (auto intro: formInv_same)

lemma formInv_handle: "formInv d form p \<Longrightarrow> formInv d form (handle h pl p)"
proof (cases h)
  case OnLoad
  assume "formInv d form p"
  then show ?thesis using OnLoad by (simp add: formInv_initProjectsSlider)
qed (erule formInv_neutral; simp split: option.splits)+

lemma formInv_run_task: "formInv d form p \<Longrightarrow> formInv d form (run_task t p)"
proof (cases t)
  case InitRefinedInteractions
  assume "formInv d form p"
  then show ?thesis using InitRefinedInteractions
    by (auto simp: run_task_def intro: formInv_same)
next
  case InitProjectsSlider
  assume "formInv d form p"
  then show ?thesis using InitProjectsSlider by (simp add: run_task_def formInv_initProjectsSlider)
next
  case (ShowViewTask v)
  assume "formInv d form p"
  then show ?thesis using ShowViewTask by (auto simp: run_task_def intro: formInv_neutral)
qed

lemma formInv_emit: "formInv d form p \<Longrightarrow> formInv d form (emit e p)"
  by (erule formInv_neutral) simp_all

lemma formInv_dispatchEvent: "formInv d form p \<Longrightarrow> formInv d form (dispatchEvent t ty pl p)"
proof -
  assume a: "formInv d form p"
  have b: "formInv d form (p\<lparr>defaultPrevented := False\<rparr>)"
    using a by (auto intro: formInv_neutral)
  have c: "formInv d form (fold (\<lambda>h. handle h pl) hs (p\<lparr>defaultPrevented := False\<rparr>))" for hs
    by (rule fold_invariant[where I = "formInv d form"]) (simp_all add: formInv_handle b)
  show ?thesis
    unfolding dispatchEvent_def Let_def using c
    by (simp add: formInv_emit)
qed

lemma formInv_step: "formInv d form p \<Longrightarrow> formInv d form (step ev p)"
proof (cases ev)
  case (Dispatch t ty pl)
  assume "formInv d form p"
  then show ?thesis using Dispatch by (simp add: formInv_dispatchEvent)
next
  case (TimerFires k)
  assume a: "formInv d form p"
  have "formInv d form (p\<lparr>timers := ts\<rparr>)" for ts using a by (auto intro: formInv_neutral)
  then show ?thesis using TimerFires a by (simp add: formInv_run_task)
next
  case (SendFormSettles ok)
  assume a: "formInv d form p"
  have b: "formInv d form (p\<lparr>pendingSends := fs\<rparr>)" for fs using a by (auto intro: formInv_neutral)
  show ?thesis using SendFormSettles a
    by (auto split: list.splits intro: formInv_neutral[OF b])
qed (erule formInv_neutral; simp)+

lemma formInv_run: "formInv d form p \<Longrightarrow> formInv d form (run evs p)"
  unfolding run_def by (rule fold_invariant[where I = "formInv d form"]) (simp_all add: formInv_step)

lemma listenersFor_emit [simp]: "listenersFor t ty (emit e p) = listenersFor t ty p"
  by (rule listenersFor_cong) simp

lemma submit_initPreloader [simp]:
  "listenersFor t ''submit'' (initPreloader p) = listenersFor t ''submit'' p"
  by (simp add: initPreloader_def Let_def listenersFor_addEventListener)

lemma submit_mobileMenuPreview [simp]:
  "listenersFor t ''submit'' (mobileMenuPreview p) = listenersFor t ''submit'' p"
proof -
  have a: "listenersFor t ''submit''
             (fold (\<lambda>item q.
                      addEventListener (Node item) ''mouseleave'' (OnPreviewLeave pc)
                        (addEventListener (Node item) ''mouseenter'' (OnPreviewEnter item pc) q))
                   xs p)
           = listenersFor t ''submit'' p" for pc xs
    by (rule fold_frame[where F = "listenersFor t ''submit''"])
       (simp add: listenersFor_addEventListener)
  show ?thesis
    unfolding mobileMenuPreview_def Let_def by (simp add: a split: option.splits)
qed

lemma doc_initPreloader: "doc (initPreloader p) = doc p"
  by (simp add: initPreloader_def Let_def)

lemma script_scriptPrefix:
  "script p0 =
     (case menuTrigger (scriptPrefix p0) of
        None \<Rightarrow> Threw (TypeError ''menuTrigger is null'') (scriptPrefix p0)
      | Some mt \<Rightarrow>
         (case getElementById (doc p0) ''contact-form'' of
            None \<Rightarrow> Threw (TypeError ''contact-form is null'')
                      (emit (Invoke ''emailjs.init'')
                         (addEventListener (Node mt) ''click'' OnMenuTriggerClick (scriptPrefix p0)))
          | Some form \<Rightarrow>
              Completed
                ((addEventListener Window ''load'' OnLoad
                    ((addEventListener (Node form) ''submit'' (OnContactSubmit form)
                        (emit (Invoke ''emailjs.init'')
                           (addEventListener (Node mt) ''click'' OnMenuTriggerClick (scriptPrefix p0))))
                     \<lparr>currentProjectIndex := 0\<rparr>))
                 \<lparr>showViewRef := Wrapper2\<rparr>)))"
proof -
  have d: "doc (scriptPrefix p0) = doc p0"
    by (simp add: scriptPrefix_def doc_initPreloader split: option.splits)
  have "script p0 =
     (case menuTrigger (scriptPrefix p0) of
        None \<Rightarrow> Threw (TypeError ''menuTrigger is null'') (scriptPrefix p0)
      | Some mt \<Rightarrow>
         (case getElementById (doc (scriptPrefix p0)) ''contact-form'' of
            None \<Rightarrow> Threw (TypeError ''contact-form is null'')
                      (emit (Invoke ''emailjs.init'')
                         (addEventListener (Node mt) ''click'' OnMenuTriggerClick (scriptPrefix p0)))
          | Some form \<Rightarrow>
              Completed
                ((addEventListener Window ''load'' OnLoad
                    ((addEventListener (Node form) ''submit'' (OnContactSubmit form)
                        (emit (Invoke ''emailjs.init'')
                           (addEventListener (Node mt) ''click'' OnMenuTriggerClick (scriptPrefix p0))))
                     \<lparr>currentProjectIndex := 0\<rparr>))
                 \<lparr>showViewRef := Wrapper2\<rparr>)))"
    unfolding script_def scriptPrefix_def Let_def
    by (simp add: doc_initPreloader split: option.splits)
  then show ?thesis unfolding d .
qed

lemma scriptPrefix_submit:
  "listenersFor t ''submit'' (scriptPrefix p0) = listenersFor t ''submit'' p0"
proof -
  have a: "listenersFor t ''submit'' (q\<lparr>menuTrigger := x, navOverlay := y, isMenuOpen := z\<rparr>)
             = listenersFor t ''submit'' q" for q x y z
    by (simp add: listenersFor_def)
  show ?thesis
    unfolding scriptPrefix_def
    by (simp add: a listenersFor_addEventListener split: option.splits)
qed

lemma formInv_script:
  assumes "script (loadPage d h i rc) = Completed p"
    and "getElementById d ''contact-form'' = Some form"
  shows "formInv d form p"
proof -
  let ?p0 = "loadPage d h i rc"
  have l0: "listenersFor t ty ?p0 = []" for t ty
    by (simp add: listenersFor_def loadPage_def)
  have d0: "doc ?p0 = d" by (simp add: loadPage_def)
  have dp: "doc (scriptPrefix ?p0) = d"
    by (simp add: scriptPrefix_def doc_initPreloader d0 split: option.splits)
  obtain mt where p: "p = (addEventListener Window ''load'' OnLoad
                    ((addEventListener (Node form) ''submit'' (OnContactSubmit form)
                        (emit (Invoke ''emailjs.init'')
                           (addEventListener (Node mt) ''click'' OnMenuTriggerClick (scriptPrefix ?p0))))
                     \<lparr>currentProjectIndex := 0\<rparr>))
                 \<lparr>showViewRef := Wrapper2\<rparr>"
    using assms unfolding script_scriptPrefix d0
    by (auto split: option.splits)
  have "doc p = d" unfolding p by (simp add: dp)
  moreover have "listenersFor (Node form) ''submit'' p = [OnContactSubmit form]"
    unfolding p by (simp add: listenersFor_addEventListener scriptPrefix_submit l0)
  ultimately show ?thesis using assms(2) by (simp add: formInv_def)
qed

section \<open>Contact form\<close>

lemma submit_dispatch:
  assumes reg: "listenersFor (Node form) ''submit'' q = [OnContactSubmit form]"
  shows "effects (dispatchEvent (Node form) ''submit'' pl q) = effects q @ [PreventDefault, SendForm form] \<and>
         pendingSends (dispatchEvent (Node form) ''submit'' pl q) = pendingSends q @ [form] \<and>
         doc (dispatchEvent (Node form) ''submit'' pl q) = doc q"
proof -
  have "dispatchEvent (Node form) ''submit'' pl q = onContactSubmit form (q\<lparr>defaultPrevented := False\<rparr>)"
    by (simp add: dispatchEvent_def reg Let_def onContactSubmit_def emit_def)
  then show ?thesis by (simp add: onContactSubmit_def emit_def Let_def)
qed

lemma settle_shows_one:
  assumes pend: "pendingSends q = f # rest"
    and m: "getElementById (doc q) ''message-modal'' = Some m"
    and e: "getElementById (doc q) ''error-modal'' = Some e"
  shows "effects (step (SendFormSettles ok) q)
           = effects q @ (if ok then [ClassAdd m ''active'', FormReset f] else [ClassAdd e ''active'']) \<and>
         hasClass ''active'' (doc (step (SendFormSettles ok) q) ! (if ok then m else e)) \<and>
         doc (step (SendFormSettles ok) q) ! (if ok then e else m) = doc q ! (if ok then e else m) \<and>
         pendingSends (step (SendFormSettles ok) q) = rest"
proof -
  have mn: "m < length (doc q)" "elId (doc q ! m) = ''message-modal''"
    using getElementById_Some[OF m] by auto
  have en: "e < length (doc q)" "elId (doc q ! e) = ''error-modal''"
    using getElementById_Some[OF e] by auto
  have ne: "m \<noteq> e" using mn en by auto
  let ?r = "step (SendFormSettles ok) q"
  have r: "?r = (if ok then emit (FormReset f) (classList_add m ''active'' (q\<lparr>pendingSends := rest\<rparr>))
                 else classList_add e ''active'' (q\<lparr>pendingSends := rest\<rparr>))"
    using m e
    by (simp add: pend sendFormFulfilled_def sendFormRejected_def showMessageModal_def
        showErrorModal_def)
  have re: "effects ?r = effects q
             @ (if ok then [ClassAdd m ''active'', FormReset f] else [ClassAdd e ''active''])"
    unfolding r by (simp add: emit_def classList_add_def)
  have rd: "doc ?r = (doc q)[(if ok then m else e) := activate (doc q ! (if ok then m else e))]"
    unfolding r by (simp add: emit_def classList_add_def activate_def)
  have rp: "pendingSends ?r = rest"
    unfolding r by (simp add: emit_def classList_add_def)
  have "hasClass ''active'' (doc ?r ! (if ok then m else e))"
    unfolding rd using mn en by (simp add: hasClass_activate)
  moreover have "doc ?r ! (if ok then e else m) = doc q ! (if ok then e else m)"
    unfolding rd using ne by simp
  ultimately show ?thesis using re rp by simp
qed

text \<open>
  C8. Once the script has run, at any later moment: a submit event on the contact form
  never reaches the browser's own submission, since the registered listener prevents the
  default and hands the form to the mail service, which adds one pending promise. When a
  pending promise is settled, exactly one indicator is shown: the success modal (and the
  form is reset) when it is fulfilled, the error modal when it is rejected; the other
  modal is left as it was.
\<close>

theorem contact_submit_shows_one_indicator:
  assumes script: "script (loadPage d h i rc) = Completed p"
    and form: "getElementById d ''contact-form'' = Some form"
    and m: "getElementById d ''message-modal'' = Some m"
    and e: "getElementById d ''error-modal'' = Some e"
  shows "effects (dispatchEvent (Node form) ''submit'' pl (run evs p))
           = effects (run evs p) @ [PreventDefault, SendForm form] \<and>
         pendingSends (dispatchEvent (Node form) ''submit'' pl (run evs p))
           = pendingSends (run evs p) @ [form] \<and>
         doc (dispatchEvent (Node form) ''submit'' pl (run evs p)) = doc (run evs p) \<and>
         (pendingSends (run evs p) \<noteq> [] \<longrightarrow>
            effects (step (SendFormSettles ok) (run evs p))
              = effects (run evs p)
                @ (if ok then [ClassAdd m ''active'', FormReset (hd (pendingSends (run evs p)))]
                   else [ClassAdd e ''active'']) \<and>
            hasClass ''active'' (doc (step (SendFormSettles ok) (run evs p)) ! (if ok then m else e)) \<and>
            doc (step (SendFormSettles ok) (run evs p)) ! (if ok then e else m)
              = doc (run evs p) ! (if ok then e else m) \<and>
            pendingSends (step (SendFormSettles ok) (run evs p)) = tl (pendingSends (run evs p)))"
proof -
  let ?q = "run evs p"
  have inv: "formInv d form ?q"
    using formInv_run[OF formInv_script[OF script form]] .
  have reg: "listenersFor (Node form) ''submit'' ?q = [OnContactSubmit form]"
    using inv by (simp add: formInv_def)
  have ids: "map elId (doc ?q) = map elId d" using inv by (simp add: formInv_def)
  have mq: "getElementById (doc ?q) ''message-modal'' = Some m"
    using getElementById_cong[OF ids] m by simp
  have eq: "getElementById (doc ?q) ''error-modal'' = Some e"
    using getElementById_cong[OF ids] e by simp
  have settle: ?thesis if "pendingSends ?q = f # rest" for f rest
    using submit_dispatch[OF reg, of pl] settle_shows_one[OF that mq eq, of ok] that by simp
  show ?thesis
  proof (cases "pendingSends ?q")
    case Nil
    then show ?thesis using submit_dispatch[OF reg, of pl] by simp
  next
    case (Cons f rest)
    then show ?thesis by (rule settle)
  qed
qed

theorem contact_submit_shows_one_indicator_witness:
  "script (loadPage demoDoc demoHist 1 False) = Completed demoPage \<and>
   getElementById demoDoc ''contact-form'' = Some 8 \<and>
   getElementById demoDoc ''message-modal'' = Some 9 \<and>
   getElementById demoDoc ''error-modal'' = Some 10 \<and>
   pendingSends (run [CallShowView ''about'', Dispatch (Node 8) ''submit'' NoPayload] demoPage) = [8] \<and>
   effects (step (SendFormSettles False)
              (run [CallShowView ''about'', Dispatch (Node 8) ''submit'' NoPayload] demoPage))
     = effects (run [CallShowView ''about'', Dispatch (Node 8) ''submit'' NoPayload] demoPage)
       @ [ClassAdd 10 ''active''] \<and>
   hasClass ''active''
     (doc (step (SendFormSettles False)
             (run [CallShowView ''about'', Dispatch (Node 8) ''submit'' NoPayload] demoPage)) ! 10) \<and>
   effects (dispatchEvent (Node 8) ''submit'' NoPayload (run [CallShowView ''about''] demoPage))
     = effects (run [CallShowView ''about''] demoPage) @ [PreventDefault, SendForm 8]"
proof -
  have a: "script (loadPage demoDoc demoHist 1 False) = Completed demoPage" by code_simp
  have b: "getElementById demoDoc ''contact-form'' = Some 8" by code_simp
  have c: "getElementById demoDoc ''message-modal'' = Some 9" by code_simp
  have d: "getElementById demoDoc ''error-modal'' = Some 10" by code_simp
  have e: "pendingSends (run [CallShowView ''about'', Dispatch (Node 8) ''submit'' NoPayload] demoPage) = [8]"
    by code_simp
  show ?thesis
    using a b c d e
      contact_submit_shows_one_indicator[OF a b c d,
        of NoPayload "[CallShowView ''about'', Dispatch (Node 8) ''submit'' NoPayload]" False]
      contact_submit_shows_one_indicator[OF a b c d, of NoPayload "[CallShowView ''about'']" False]
    by simp
qed

section \<open>The script without the menu trigger\<close>

lemma menuTrigger_mobileMenuPreview: "menuTrigger (mobileMenuPreview p) = menuTrigger p"
proof -
  have a: "menuTrigger
             (fold (\<lambda>item q.
                      addEventListener (Node item) ''mouseleave'' (OnPreviewLeave pc)
                        (addEventListener (Node item) ''mouseenter'' (OnPreviewEnter item pc) q))
                   xs p)
           = menuTrigger p" for pc xs
    by (rule fold_frame[where F = menuTrigger]) (simp add: addEventListener_def)
  show ?thesis
    unfolding mobileMenuPreview_def Let_def by (simp add: a split: option.splits)
qed

lemma showViewRef_mobileMenuPreview: "showViewRef (mobileMenuPreview p) = showViewRef p"
proof -
  have a: "showViewRef
             (fold (\<lambda>item q.
                      addEventListener (Node item) ''mouseleave'' (OnPreviewLeave pc)
                        (addEventListener (Node item) ''mouseenter'' (OnPreviewEnter item pc) q))
                   xs p)
           = showViewRef p" for pc xs
    by (rule fold_frame[where F = showViewRef]) (simp add: addEventListener_def)
  show ?thesis
    unfolding mobileMenuPreview_def Let_def by (simp add: a split: option.splits)
qed

lemma showViewRef_initRefinedInteractions: "showViewRef (initRefinedInteractions p) = showViewRef p"
  unfolding initRefinedInteractions_def
  by (rule fold_frame[where F = showViewRef]) (simp add: addEventListener_def)

lemma scriptPrefix_state:
  "menuTrigger (scriptPrefix p0) = getElementById (doc p0) ''mobile-menu-trigger'' \<and>
   showViewRef (scriptPrefix p0) = Wrapper1"
  by (simp add: scriptPrefix_def menuTrigger_mobileMenuPreview showViewRef_mobileMenuPreview
      showViewRef_initRefinedInteractions emit_def addEventListener_def)

text \<open>On any page without the menu trigger the script throws before it reaches the contact
  form: no submit listener exists, and a submit event on any node is left to the
  browser.\<close>

lemma script_without_menu_trigger:
  assumes "getElementById d ''mobile-menu-trigger'' = None"
  shows "threw (script (loadPage d h i rc)) \<and>
         showViewRef (page_of (script (loadPage d h i rc))) = Wrapper1 \<and>
         listenersFor t ''submit'' (page_of (script (loadPage d h i rc))) = [] \<and>
         effects (dispatchEvent t ''submit'' pl (page_of (script (loadPage d h i rc))))
           = effects (page_of (script (loadPage d h i rc))) @ [NativeSubmit]"
proof -
  let ?p0 = "loadPage d h i rc"
  have d0: "doc ?p0 = d" by (simp add: loadPage_def)
  have l0: "listenersFor t ''submit'' ?p0 = []" by (simp add: listenersFor_def loadPage_def)
  have s: "script ?p0 = Threw (TypeError ''menuTrigger is null'') (scriptPrefix ?p0)"
    unfolding script_scriptPrefix using scriptPrefix_state[of ?p0] assms by (simp add: d0)
  have l: "listenersFor t ''submit'' (scriptPrefix ?p0) = []"
    by (simp add: scriptPrefix_submit l0)
  have "effects (dispatchEvent t ''submit'' pl (scriptPrefix ?p0)) = effects (scriptPrefix ?p0) @ [NativeSubmit]"
    by (simp add: dispatchEvent_def l Let_def emit_def)
  then show ?thesis using s l scriptPrefix_state[of ?p0] by simp
qed

section \<open>Start-up of the page\<close>

lemma listenersFor_initPreloader:
  "ty \<noteq> ''load'' \<Longrightarrow> listenersFor t ty (initPreloader p) = listenersFor t ty p"
  by (simp add: initPreloader_def Let_def listenersFor_addEventListener)

lemma listenersFor_initRefinedInteractions:
  assumes "ty \<noteq> ''mouseenter''" "ty \<noteq> ''mouseleave''" "ty \<noteq> ''mousemove''"
  shows "listenersFor t ty (initRefinedInteractions p) = listenersFor t ty p"
  unfolding initRefinedInteractions_def
  by (rule fold_frame[where F = "listenersFor t ty"])
     (simp add: listenersFor_addEventListener assms assms[symmetric])

lemma listenersFor_mobileMenuPreview:
  assumes "ty \<noteq> ''mouseenter''" "ty \<noteq> ''mouseleave''"
  shows "listenersFor t ty (mobileMenuPreview p) = listenersFor t ty p"
proof -
  have a: "listenersFor t ty
             (fold (\<lambda>item q.
                      addEventListener (Node item) ''mouseleave'' (OnPreviewLeave pc)
                        (addEventListener (Node item) ''mouseenter'' (OnPreviewEnter item pc) q))
                   xs p)
           = listenersFor t ty p" for pc xs
    by (rule fold_frame[where F = "listenersFor t ty"])
       (simp add: listenersFor_addEventListener assms assms[symmetric])
  show ?thesis
    unfolding mobileMenuPreview_def Let_def by (simp add: a split: option.splits)
qed

lemma scriptPrefix_loaded:
  "listenersFor Window ''DOMContentLoaded'' (scriptPrefix p0)
     = listenersFor Window ''DOMContentLoaded'' p0 @ [OnDOMContentLoaded]"
proof -
  have a: "listenersFor t ty (q\<lparr>menuTrigger := x, navOverlay := y, isMenuOpen := z\<rparr>)
             = listenersFor t ty q" for t ty q x y z
    by (simp add: listenersFor_def)
  show ?thesis
    unfolding scriptPrefix_def
    by (simp add: a listenersFor_addEventListener listenersFor_initPreloader
        listenersFor_initRefinedInteractions listenersFor_mobileMenuPreview
        split: option.splits)
qed

lemma script_loaded:
  "listenersFor Window ''DOMContentLoaded'' (page_of (script p0))
     = listenersFor Window ''DOMContentLoaded'' p0 @ [OnDOMContentLoaded]"
  unfolding script_scriptPrefix
  by (simp add: listenersFor_addEventListener scriptPrefix_loaded split: option.splits)

lemma hist_initPreloader: "hist (initPreloader p) = hist p" "histIdx (initPreloader p) = histIdx p"
  by (simp_all add: initPreloader_def Let_def emit_def addEventListener_def)

lemma hist_initRefinedInteractions:
  "hist (initRefinedInteractions p) = hist p" "histIdx (initRefinedInteractions p) = histIdx p"
  unfolding initRefinedInteractions_def
  by (rule fold_frame[where F = hist], simp add: addEventListener_def,
      rule fold_frame[where F = histIdx], simp add: addEventListener_def)

lemma hist_mobileMenuPreview:
  "hist (mobileMenuPreview p) = hist p" "histIdx (mobileMenuPreview p) = histIdx p"
proof -
  have a: "hist (fold (\<lambda>item q.
                      addEventListener (Node item) ''mouseleave'' (OnPreviewLeave pc)
                        (addEventListener (Node item) ''mouseenter'' (OnPreviewEnter item pc) q))
                   xs p) = hist p" for pc xs
    by (rule fold_frame[where F = hist]) (simp add: addEventListener_def)
  have b: "histIdx (fold (\<lambda>item q.
                      addEventListener (Node item) ''mouseleave'' (OnPreviewLeave pc)
                        (addEventListener (Node item) ''mouseenter'' (OnPreviewEnter item pc) q))
                   xs p) = histIdx p" for pc xs
    by (rule fold_frame[where F = histIdx]) (simp add: addEventListener_def)
  show "hist (mobileMenuPreview p) = hist p" "histIdx (mobileMenuPreview p) = histIdx p"
    unfolding mobileMenuPreview_def Let_def by (simp_all add: a b split: option.splits)
qed

lemma script_hist:
  "hist (page_of (script p0)) = hist p0 \<and> histIdx (page_of (script p0)) = histIdx p0"
proof -
  have "hist (scriptPrefix p0) = hist p0 \<and> histIdx (scriptPrefix p0) = histIdx p0"
    by (simp add: scriptPrefix_def hist_initPreloader hist_initRefinedInteractions
        hist_mobileMenuPreview emit_def addEventListener_def split: option.splits)
  then show ?thesis
    unfolding script_scriptPrefix
    by (simp add: emit_def addEventListener_def split: option.splits)
qed

text \<open>
  C5. The script registers one listener for \<open>DOMContentLoaded\<close>. When the browser
  dispatches that event to the page the script has just run on, a fragment that names a
  view of the page makes that view the one marked active; an empty fragment, or one that
  names no element \<open>view-<fragment>\<close>, makes the view \<open>home\<close> the one marked active.
\<close>

theorem startup_activates_fragment_or_home:
  assumes mc: "markupContract d"
    and home: "getElementById d (''view-'' @ ''home'') = Some hm"
    and hash: "location_hash (loadPage d h i rc) = (if fragment = [] then [] else CHR ''#'' # fragment)"
  shows "listenersFor Window ''DOMContentLoaded'' (page_of (script (loadPage d h i rc)))
           = [OnDOMContentLoaded] \<and>
         (fragment \<noteq> [] \<and> getElementById d (''view-'' @ fragment) = Some v \<longrightarrow>
            activeViews (doc (dispatchEvent Window ''DOMContentLoaded'' pl
                                 (page_of (script (loadPage d h i rc))))) = [v]) \<and>
         (fragment = [] \<or> getElementById d (''view-'' @ fragment) = None \<longrightarrow>
            activeViews (doc (dispatchEvent Window ''DOMContentLoaded'' pl
                                 (page_of (script (loadPage d h i rc))))) = [hm])"
proof -
  let ?s = "loadPage d h i rc"
  let ?r = "page_of (script ?s)"
  let ?q = "?r\<lparr>defaultPrevented := False\<rparr>"
  have l0: "listenersFor Window ''DOMContentLoaded'' ?s = []"
    by (simp add: listenersFor_def loadPage_def)
  have reg: "listenersFor Window ''DOMContentLoaded'' ?r = [OnDOMContentLoaded]"
    using script_loaded[of ?s] l0 by simp
  have dp: "doc ?r = d" using script_slider_state[of d h i rc] by simp
  have hp: "location_hash ?q = location_hash ?s"
    using script_hist[of ?s] by (simp add: location_hash_def)
  have disp: "dispatchEvent Window ''DOMContentLoaded'' pl ?r = onDOMContentLoaded ?q"
    by (simp add: dispatchEvent_def reg Let_def)
  have mc': "markupContract (doc ?q)" using mc dp by simp
  have home': "getElementById (doc ?q) (''view-'' @ ''home'') = Some hm" using home dp by simp
  have hash': "location_hash ?q = (if fragment = [] then [] else CHR ''#'' # fragment)"
    using hash hp by simp
  show ?thesis
    using reg onDOMContentLoaded_activates[OF mc' home' hash', of v] dp
    unfolding disp by simp
qed

theorem startup_activates_fragment_or_home_witness:
  "markupContract demoDocIdle \<and>
   getElementById demoDocIdle (''view-'' @ ''home'') = Some 0 \<and>
   getElementById demoDocIdle (''view-'' @ ''about'') = Some 1 \<and>
   getElementById demoDocIdle (''view-'' @ ''nope'') = None \<and>
   activeViews demoDocIdle = [] \<and>
   location_hash (startPage ''#about'') = ''#about'' \<and>
   location_hash (startPage ''#nope'') = ''#nope'' \<and>
   location_hash (startPage []) = [] \<and>
   activeViews (doc (dispatchEvent Window ''DOMContentLoaded'' NoPayload
                       (page_of (script (startPage ''#about''))))) = [1] \<and>
   activeViews (doc (dispatchEvent Window ''DOMContentLoaded'' NoPayload
                       (page_of (script (startPage ''#nope''))))) = [0] \<and>
   activeViews (doc (dispatchEvent Window ''DOMContentLoaded'' NoPayload
                       (page_of (script (startPage []))))) = [0]"
proof -
  have a: "markupContract demoDocIdle" by code_simp
  have b: "getElementById demoDocIdle (''view-'' @ ''home'') = Some 0" by code_simp
  have c: "getElementById demoDocIdle (''view-'' @ ''about'') = Some 1" by code_simp
  have d: "getElementById demoDocIdle (''view-'' @ ''nope'') = None" by code_simp
  have e: "activeViews demoDocIdle = []" by code_simp
  have h1: "location_hash (loadPage demoDocIdle
              [(''https://example.org/'', []), (''https://example.org/portfolio/'', ''#about'')] 1 False)
            = (if ''about'' = [] then [] else CHR ''#'' # ''about'')" by code_simp
  have h2: "location_hash (loadPage demoDocIdle
              [(''https://example.org/'', []), (''https://example.org/portfolio/'', ''#nope'')] 1 False)
            = (if ''nope'' = [] then [] else CHR ''#'' # ''nope'')" by code_simp
  have h3: "location_hash (loadPage demoDocIdle
              [(''https://example.org/'', []), (''https://example.org/portfolio/'', [])] 1 False)
            = (if ([]::string) = [] then [] else CHR ''#'' # [])" by code_simp
  show ?thesis
    using a b c d e h1 h2 h3
      startup_activates_fragment_or_home[OF a b h1, of 1 NoPayload]
      startup_activates_fragment_or_home[OF a b h2, of 0 NoPayload]
      startup_activates_fragment_or_home[OF a b h3, of 0 NoPayload]
    by (simp add: startPage_def)
qed

end
